theory Spec2Isabelle
  imports Complex_Main
begin

section \<open>batch\_process\_videos.py: sampling frames and selecting the result screen\<close>

text \<open>
  \<open>BatchVideoProcessor.extract_result_screen\<close> decodes a video frame by frame, keeps every
  second frame together with its game-end confidence in two parallel lists, bounds the
  lists by evicting a chunk from the front, and afterwards scans the scores backwards.
  A frame is an opaque image of type \<open>'f\<close>; \<open>detect_game_end\<close> is the parameter
  \<open>detect\<close>, which gives the confidence of a frame (the bright-pixel ratio, or \<open>0.0\<close> when
  the computation raised). Confidences are ratios of pixel counts, modelled as reals.
\<close>

definition game_end_confidence_threshold :: real where
  "game_end_confidence_threshold = 7 / 10"

definition frame_skip_interval :: nat where
  "frame_skip_interval = 2"

definition max_frames :: nat where
  "max_frames = 3600"

text \<open>Lines 218--225: append to both lists, then drop a chunk from the front of both.\<close>

definition window_insert :: "'f list \<times> real list \<Rightarrow> 'f \<Rightarrow> real \<Rightarrow> 'f list \<times> real list" where
  "window_insert w frame confidence =
     (let fs = fst w @ [frame];
          ss = snd w @ [confidence]
      in if length fs > max_frames
         then (let chunk_size = min 50 (length fs div 4)
               in (drop chunk_size fs, drop chunk_size ss))
         else (fs, ss))"

record 'f sampler =
  frames :: "'f list"
  scores :: "real list"
  frame_42_image :: "'f option"
  frame_count :: nat

definition sampler_init :: "'f sampler" where
  "sampler_init = \<lparr>frames = [], scores = [], frame_42_image = None, frame_count = 0\<rparr>"

text \<open>One iteration of the decoding loop (lines 201--229), for a frame that was read.\<close>

definition sample_step :: "('f \<Rightarrow> real) \<Rightarrow> 'f sampler \<Rightarrow> 'f \<Rightarrow> 'f sampler" where
  "sample_step detect st frame =
     (let fc = frame_count st + 1;
          f42 = (if fc = 42 then Some frame else frame_42_image st);
          confidence = detect frame;
          w = (if fc mod frame_skip_interval = 0
               then window_insert (frames st, scores st) frame confidence
               else (frames st, scores st))
      in \<lparr>frames = fst w, scores = snd w, frame_42_image = f42, frame_count = fc\<rparr>)"

definition sample_frames :: "('f \<Rightarrow> real) \<Rightarrow> 'f list \<Rightarrow> 'f sampler" where
  "sample_frames detect video = foldl (sample_step detect) sampler_init video"

text \<open>
  Lines 238--246: \<open>for i in range(len(scores) - 1, -1, -1)\<close> with a \<open>break\<close> at the first
  index that passes the test. \<open>scan_backward scores n\<close> visits the indices \<open>n - 1, \<dots>, 0\<close>;
  \<open>best_confidence\<close> is still \<open>0.0\<close> whenever the test is evaluated.
\<close>

fun scan_backward :: "real list \<Rightarrow> nat \<Rightarrow> int" where
  "scan_backward ss 0 = - 1"
| "scan_backward ss (Suc i) =
     (if ss ! i \<ge> game_end_confidence_threshold \<and> ss ! i > 0
      then int i
      else scan_backward ss i)"

definition find_best_frame_index :: "real list \<Rightarrow> int" where
  "find_best_frame_index ss = scan_backward ss (length ss)"

text \<open>
  The function returns \<open>(None, None, None)\<close> on every failure and tells the failures
  apart only in what it logs; the model returns the value together with the warning or
  error that was logged.
\<close>

datatype extract_log =
    FailedToOpen
  | NoFramesCaptured
  | NoFrameAboveThreshold
  | SequenceTooShort nat

type_synonym 'f extracted = "('f list \<times> 'f option \<times> int) option"

text \<open>Lines 233--261, on the two lists the loop has left.\<close>

definition select_segment ::
  "'f list \<Rightarrow> real list \<Rightarrow> 'f option \<Rightarrow> int \<Rightarrow> 'f extracted \<times> extract_log list" where
  "select_segment fs ss f42 fps =
     (if fs = [] \<or> ss = [] then (None, [NoFramesCaptured])
      else
        (let best_frame_index = find_best_frame_index ss
         in if best_frame_index = - 1 then (None, [NoFrameAboveThreshold])
            else
              (let result_frames = drop (nat best_frame_index) fs
               in if length result_frames < 15
                  then (None, [SequenceTooShort (length result_frames)])
                  else (Some (result_frames, f42, fps), []))))"

record 'f video =
  is_opened :: bool
  cap_fps :: int
  decoded :: "'f list"

definition extract_result_screen ::
  "('f \<Rightarrow> real) \<Rightarrow> 'f video \<Rightarrow> 'f extracted \<times> extract_log list" where
  "extract_result_screen detect v =
     (if \<not> is_opened v then (None, [FailedToOpen])
      else
        (let fps = (if cap_fps v \<le> 0 then 30 else cap_fps v);
             st = sample_frames detect (decoded v)
         in select_segment (frames st) (scores st) (frame_42_image st) fps))"

section \<open>batch\_process\_videos.py: the record store and saving a match\<close>

text \<open>
  Strings are lists of 8-bit characters. The regular-expression class \<open>\d\<close> is modelled
  as the ASCII digits and the case conversions as the ASCII ones; code points beyond
  ASCII are outside the model.
\<close>

datatype py_error = ValueError | IndexError | OSError | ApiError | HttpError nat

type_synonym instant = int

definition is_digit :: "char \<Rightarrow> bool" where
  "is_digit c = (c \<in> set ''0123456789'')"

text \<open>
  Python's \<open>$\<close> (without \<open>re.MULTILINE\<close>) matches at the end of the string and also just
  before a newline that ends the string: a pattern \<open>^p$\<close> matches \<open>s\<close> when \<open>p\<close> matches all
  of \<open>s\<close>, or all of \<open>s\<close> but its final newline.
\<close>

definition chomp :: "string \<Rightarrow> string" where
  "chomp s = (if s \<noteq> [] \<and> last s = CHR 0x0A then butlast s else s)"

text \<open>\<open>re.match(r"^" + lit + r"\d+$", s)\<close> for a literal \<open>lit\<close>, as a truth value.\<close>

definition lit_digits :: "string \<Rightarrow> string \<Rightarrow> bool" where
  "lit_digits lit s = (length lit < length s \<and> take (length lit) s = lit
                        \<and> list_all is_digit (drop (length lit) s))"

definition re_match_lit_digits :: "string \<Rightarrow> string \<Rightarrow> bool" where
  "re_match_lit_digits lit s = (lit_digits lit s \<or> lit_digits lit (chomp s))"

definition is_unknown_player_name :: "string \<Rightarrow> bool" where
  "is_unknown_player_name n =
     (re_match_lit_digits ''Player '' n \<or> re_match_lit_digits ''P'' n
      \<or> re_match_lit_digits ''P '' n)"

definition ascii_lowercase :: string where
  "ascii_lowercase = ''abcdefghijklmnopqrstuvwxyz''"

definition ascii_uppercase :: string where
  "ascii_uppercase = ''ABCDEFGHIJKLMNOPQRSTUVWXYZ''"

definition to_upper :: "char \<Rightarrow> char" where
  "to_upper c = (case map_of (zip ascii_lowercase ascii_uppercase) c of Some u \<Rightarrow> u | None \<Rightarrow> c)"

definition to_lower :: "char \<Rightarrow> char" where
  "to_lower c = (case map_of (zip ascii_uppercase ascii_lowercase) c of Some l \<Rightarrow> l | None \<Rightarrow> c)"

record player_stats =
  is_online_match :: bool
  smash_character :: string
  player_name :: string
  is_cpu :: bool
  total_kos :: int
  total_falls :: int
  total_sds :: int
  has_won :: bool

text \<open>The three tables the scripts read and write, each in the order the store returns rows.\<close>

record player_row =
  player_id :: string
  display_name :: string
  elo :: int

record match_row =
  match_id :: int
  created_at :: instant
  youtube_url :: "string option"

record participant_row =
  mp_player :: string
  mp_smash_character :: string
  mp_is_cpu :: bool
  mp_total_kos :: int
  mp_total_falls :: int
  mp_total_sds :: int
  mp_has_won :: bool
  mp_match_id :: int
  mp_created_at :: instant

record db =
  players :: "player_row list"
  matches :: "match_row list"
  match_participants :: "participant_row list"
  match_seq :: int

text \<open>
  What lies outside the script when \<open>save_match_stats\<close> runs: whether the store client
  exists, which store calls raise, the identifier and rating the store gives a new player,
  and the two functions of \<open>elo_utils\<close>, a module that is not part of the sources at hand
  and is taken as a parameter.
\<close>

record batch_env =
  client_available :: bool
  create_match_raises :: bool
  get_player_raises :: "string \<Rightarrow> bool"
  insert_participant_raises :: "string \<Rightarrow> bool"
  update_elo_raises :: "string \<Rightarrow> bool"
  new_player_id :: "string \<Rightarrow> string"
  default_elo :: int
  calculate_elo_update :: "int \<Rightarrow> int \<Rightarrow> bool \<Rightarrow> int \<times> int"
  update_inactivity_status :: "db \<Rightarrow> db"

definition get_player :: "batch_env \<Rightarrow> db \<Rightarrow> string \<Rightarrow> player_row option \<times> db" where
  "get_player env d name =
     (if \<not> client_available env then (None, d)
      else if get_player_raises env name then (None, d)
      else (case find (\<lambda>p. display_name p = name) (players d) of
              Some p \<Rightarrow> (Some p, d)
            | None \<Rightarrow>
                (let p = \<lparr>player_id = new_player_id env name, display_name = name,
                          elo = default_elo env\<rparr>
                 in (Some p, d\<lparr>players := players d @ [p]\<rparr>))))"

definition update_player_elo :: "batch_env \<Rightarrow> db \<Rightarrow> string \<Rightarrow> int \<Rightarrow> db" where
  "update_player_elo env d pid e =
     (if \<not> client_available env \<or> update_elo_raises env pid then d
      else d\<lparr>players := map (\<lambda>p. if player_id p = pid then p\<lparr>elo := e\<rparr> else p) (players d)\<rparr>)"

definition create_match :: "batch_env \<Rightarrow> db \<Rightarrow> instant \<Rightarrow> int option \<times> db" where
  "create_match env d t =
     (if \<not> client_available env then (None, d)
      else if create_match_raises env then (None, d)
      else (let i = match_seq d + 1
            in (Some i, d\<lparr>matches := matches d @ [\<lparr>match_id = i, created_at = t, youtube_url = None\<rparr>],
                          match_seq := i\<rparr>)))"

record saved_player =
  sp_id :: string
  sp_elo :: int
  sp_has_won :: bool

text \<open>
  Lines 501--531, the loop over the extracted stats. An insert that raises leaves the loop
  (the exception is caught at line 580) with the store as it is at that moment.
\<close>

fun save_participants ::
  "batch_env \<Rightarrow> int \<Rightarrow> instant \<Rightarrow> player_stats list \<Rightarrow> db \<Rightarrow> saved_player list
     \<Rightarrow> db \<times> (py_error + saved_player list)" where
  "save_participants env mid t [] d acc = (d, Inr acc)"
| "save_participants env mid t (stat # rest) d acc =
     (case get_player env d (player_name stat) of
        (None, d1) \<Rightarrow> save_participants env mid t rest d1 acc
      | (Some player, d1) \<Rightarrow>
          if insert_participant_raises env (player_name stat) then (d1, Inl ApiError)
          else
            (let row = \<lparr>mp_player = player_id player,
                        mp_smash_character = map to_upper (smash_character stat),
                        mp_is_cpu = is_cpu stat, mp_total_kos = total_kos stat,
                        mp_total_falls = total_falls stat, mp_total_sds = total_sds stat,
                        mp_has_won = has_won stat, mp_match_id = mid, mp_created_at = t\<rparr>;
                 d2 = d1\<lparr>match_participants := match_participants d1 @ [row]\<rparr>;
                 sp = \<lparr>sp_id = player_id player, sp_elo = elo player, sp_has_won = has_won stat\<rparr>
             in save_participants env mid t rest d2 (acc @ [sp])))"

text \<open>
  Lines 548--578: the rating update of a two-player match reads \<open>players[0]\<close> and
  \<open>players[1]\<close>, which raises \<open>IndexError\<close> when a player could not be fetched.
\<close>

definition finish_match :: "batch_env \<Rightarrow> db \<Rightarrow> player_stats list \<Rightarrow> saved_player list \<Rightarrow> bool \<times> db" where
  "finish_match env d stats ps =
     (if length stats = 2
      then (if length ps < 2 then (False, d)
            else
              (let p1 = ps ! 0;
                   p2 = ps ! 1;
                   new = calculate_elo_update env (sp_elo p1) (sp_elo p2) (sp_has_won p1);
                   d1 = update_player_elo env d (sp_id p1) (fst new);
                   d2 = update_player_elo env d1 (sp_id p2) (snd new)
               in (True, update_inactivity_status env d2)))
      else (True, update_inactivity_status env d))"

text \<open>
  \<open>save_match_stats\<close> (lines 461--582): the four guards in the order of the source, then the
  match row, the participant rows and the ratings. \<open>all(...)\<close> of an empty list is true,
  so \<open>stats[0]\<close> is read on a non-empty list only.
\<close>

definition save_match_stats :: "batch_env \<Rightarrow> db \<Rightarrow> player_stats list \<Rightarrow> instant \<Rightarrow> bool \<times> db" where
  "save_match_stats env d stats t =
     (if \<not> client_available env then (False, d)
      else if list_all (\<lambda>s. \<not> has_won s) stats then (False, d)
      else if list_ex is_cpu stats then (False, d)
      else if list_ex (\<lambda>s. is_unknown_player_name (player_name s)) stats then (False, d)
      else (case stats of
              [] \<Rightarrow> (False, d)
            | s0 # _ \<Rightarrow>
                if is_online_match s0 then (False, d)
                else (case create_match env d t of
                        (None, d1) \<Rightarrow> (False, d1)
                      | (Some mid, d1) \<Rightarrow>
                          (case save_participants env mid t stats d1 [] of
                             (d2, Inl e) \<Rightarrow> (False, d2)
                           | (d2, Inr ps) \<Rightarrow> finish_match env d2 stats ps))))"

section \<open>batch\_process\_videos.py: one file and the batch\<close>

text \<open>
  What one video file brings with it: the decoded video, its creation time (\<open>None\<close> when
  reading the file status raises), whether the video writer opens, and what the
  stats-extraction call returns (\<open>None\<close> when it failed).
\<close>

record 'f batch_job =
  job_video :: "'f video"
  job_created_at :: "instant option"
  job_writer_ok :: bool
  job_stats :: "player_stats list option"

definition batch_process_video ::
  "('f \<Rightarrow> real) \<Rightarrow> batch_env \<Rightarrow> bool \<Rightarrow> db \<Rightarrow> 'f batch_job \<Rightarrow> (py_error + bool) \<times> db" where
  "batch_process_video detect env dry_run d job =
     (case job_created_at job of
        None \<Rightarrow> (Inl OSError, d)
      | Some t \<Rightarrow>
          if dry_run then (Inr True, d)
          else (case fst (extract_result_screen detect (job_video job)) of
                  None \<Rightarrow> (Inr False, d)
                | Some seg \<Rightarrow>
                    if \<not> job_writer_ok job then (Inr False, d)
                    else (case job_stats job of
                            None \<Rightarrow> (Inr False, d)
                          | Some [] \<Rightarrow> (Inr False, d)
                          | Some (s # ss) \<Rightarrow>
                              (let r = save_match_stats env d (s # ss) t
                               in (Inr (fst r), snd r)))))"

record batch_counts =
  processed_count :: nat
  skipped_count :: nat
  failed_count :: nat

definition count_result :: "batch_counts \<Rightarrow> py_error + bool \<Rightarrow> batch_counts" where
  "count_result c r =
     (case r of
        Inr True \<Rightarrow> c\<lparr>processed_count := processed_count c + 1\<rparr>
      | Inr False \<Rightarrow> c\<lparr>skipped_count := skipped_count c + 1\<rparr>
      | Inl e \<Rightarrow> c\<lparr>failed_count := failed_count c + 1\<rparr>)"

text \<open>\<open>process_all\<close> (lines 647--658): the files one after the other, each result counted.\<close>

fun process_all ::
  "('f \<Rightarrow> real) \<Rightarrow> batch_env \<Rightarrow> bool \<Rightarrow> 'f batch_job list \<Rightarrow> batch_counts \<times> db \<Rightarrow> batch_counts \<times> db" where
  "process_all detect env dry_run [] s = s"
| "process_all detect env dry_run (job # jobs) s =
     (let r = batch_process_video detect env dry_run (snd s) job
      in process_all detect env dry_run jobs (count_result (fst s) (fst r), snd r))"

section \<open>Runs of the sample window\<close>

text \<open>
  \<open>insert_all\<close> is a sequence of insertions into the empty window; \<open>sampled n video\<close> are
  the frames the decoding loop stores when it has already counted \<open>n\<close> frames.
\<close>

definition insert_all :: "('f \<times> real) list \<Rightarrow> 'f list \<times> real list" where
  "insert_all xs = foldl (\<lambda>w x. window_insert w (fst x) (snd x)) ([], []) xs"

fun sampled :: "nat \<Rightarrow> 'f list \<Rightarrow> 'f list" where
  "sampled n [] = []"
| "sampled n (f # fs) =
     (if Suc n mod frame_skip_interval = 0 then f # sampled (Suc n) fs else sampled (Suc n) fs)"

section \<open>Example inputs\<close>

text \<open>Two videos of two frames each; the frame is its own confidence.\<close>

definition no_frame_video :: "real video" where
  "no_frame_video = \<lparr>is_opened = True, cap_fps = 30, decoded = [0, 0]\<rparr>"

definition short_video :: "real video" where
  "short_video = \<lparr>is_opened = True, cap_fps = 30, decoded = [0, 9 / 10]\<rparr>"

text \<open>A store client that never fails, an empty store, and a participant of an offline match.\<close>

definition example_env :: batch_env where
  "example_env =
     \<lparr>client_available = True, create_match_raises = False,
      get_player_raises = (\<lambda>n. False), insert_participant_raises = (\<lambda>n. False),
      update_elo_raises = (\<lambda>p. False), new_player_id = (\<lambda>n. ''id-'' @ n),
      default_elo = 1000,
      calculate_elo_update = (\<lambda>a b w. if w then (a + 16, b - 16) else (a - 16, b + 16)),
      update_inactivity_status = (\<lambda>d. d)\<rparr>"

definition example_db :: db where
  "example_db = \<lparr>players = [], matches = [], match_participants = [], match_seq = 0\<rparr>"

definition example_stat :: "string \<Rightarrow> string \<Rightarrow> bool \<Rightarrow> bool \<Rightarrow> player_stats" where
  "example_stat n c cpu won =
     \<lparr>is_online_match = False, smash_character = c, player_name = n, is_cpu = cpu,
      total_kos = 2, total_falls = 1, total_sds = 0, has_won = won\<rparr>"

section \<open>youtube\_uploader.py: metadata\<close>

text \<open>
  A naive \<open>datetime\<close> with its calendar fields. The metadata dictionary always carries the
  keys \<open>players\<close> and \<open>timestamp\<close> when the scripts at hand build it; a player's name and
  character may be \<open>None\<close>, and the timestamp may be a value that is not a \<open>datetime\<close>, given
  here by its \<open>str()\<close>.
\<close>

record datetime =
  dt_year :: nat
  dt_month :: nat
  dt_day :: nat
  dt_hour :: nat
  dt_minute :: nat
  dt_second :: nat

datatype meta_timestamp = TsDatetime datetime | TsOther string

record player_meta =
  pm_name :: "string option"
  pm_character :: "string option"
  pm_kos :: int
  pm_falls :: int
  pm_sds :: int
  pm_won :: bool

record metadata =
  md_players :: "player_meta list"
  md_timestamp :: meta_timestamp

text \<open>\<open>str(n)\<close> for an integer, and zero padding as \<open>strftime\<close> does for its fields.\<close>

definition digit_char :: "nat \<Rightarrow> char" where
  "digit_char n = ''0123456789'' ! (n mod 10)"

function str_of_nat :: "nat \<Rightarrow> string" where
  "str_of_nat n = (if n < 10 then [digit_char n] else str_of_nat (n div 10) @ [digit_char n])"
  by pat_completeness auto
termination
  by (relation "measure (\<lambda>n. n)") auto

declare str_of_nat.simps [simp del]

definition str_of_int :: "int \<Rightarrow> string" where
  "str_of_int i = (if i < 0 then CHR ''-'' # str_of_nat (nat (- i)) else str_of_nat (nat i))"

definition zfill :: "nat \<Rightarrow> string \<Rightarrow> string" where
  "zfill w s = replicate (w - length s) CHR ''0'' @ s"

text \<open>
  \<open>timestamp.strftime("%Y-%m-%d %H:%M")\<close>. The year is printed by the C library as it
  is, without padding, so a year below 1000 has fewer than four digits; the other fields
  are padded to two digits.
\<close>

definition strftime_minutes :: "datetime \<Rightarrow> string" where
  "strftime_minutes dt =
     str_of_nat (dt_year dt) @ ''-'' @ zfill 2 (str_of_nat (dt_month dt)) @ ''-''
     @ zfill 2 (str_of_nat (dt_day dt)) @ '' '' @ zfill 2 (str_of_nat (dt_hour dt)) @ '':''
     @ zfill 2 (str_of_nat (dt_minute dt))"

text \<open>
  \<open>str.title()\<close> follows the case tables of Unicode, which are no part of the sources: in
  \<open>build_title\<close> it is the parameter \<open>title\<close>. On a string of ASCII characters it is
  \<open>ascii_title\<close>: a letter is upper-cased when the character before it is no letter, and
  lower-cased when it is. The examples use \<open>ascii_title\<close> on ASCII strings.
\<close>

fun title_from :: "bool \<Rightarrow> string \<Rightarrow> string" where
  "title_from prev [] = []"
| "title_from prev (c # cs) =
     (if c \<in> set ascii_lowercase then (if prev then c else to_upper c) # title_from True cs
      else if c \<in> set ascii_uppercase then (if prev then to_lower c else c) # title_from True cs
      else c # title_from False cs)"

definition ascii_title :: "string \<Rightarrow> string" where
  "ascii_title s = title_from False s"

text \<open>
  Lines 196--211 of \<open>build_title\<close>: the title from the first two players, or nothing. A
  character that is \<open>None\<close> makes \<open>.title()\<close> raise, which the \<open>try\<close> catches; a name that
  is \<open>None\<close> or empty fails the test of line 208.
\<close>

definition versus_title :: "(string \<Rightarrow> string) \<Rightarrow> int \<Rightarrow> player_meta list \<Rightarrow> string option" where
  "versus_title title mid ps =
     (case ps of
        p1 # p2 # rest \<Rightarrow>
          (case (pm_character p1, pm_character p2) of
             (Some c1, Some c2) \<Rightarrow>
               (let p1_char = title c1; p2_char = title c2
                in (case (pm_name p1, pm_name p2) of
                      (Some p1_name, Some p2_name) \<Rightarrow>
                        if p1_name \<noteq> [] \<and> p2_name \<noteq> [] \<and> p1_char \<noteq> [] \<and> p2_char \<noteq> []
                        then Some (p1_name @ '' ('' @ p1_char @ '') vs '' @ p2_name @ '' (''
                                   @ p2_char @ '') - Match #'' @ str_of_int mid)
                        else None
                    | _ \<Rightarrow> None))
           | _ \<Rightarrow> None)
      | _ \<Rightarrow> None)"

definition fallback_title :: "int \<Rightarrow> meta_timestamp \<Rightarrow> string" where
  "fallback_title mid ts =
     ''Match #'' @ str_of_int mid @ '' - ''
     @ (case ts of TsDatetime dt \<Rightarrow> strftime_minutes dt | TsOther s \<Rightarrow> s)"

definition build_title :: "(string \<Rightarrow> string) \<Rightarrow> int \<Rightarrow> metadata \<Rightarrow> string" where
  "build_title title mid md =
     (case versus_title title mid (md_players md) of
        Some t \<Rightarrow> t
      | None \<Rightarrow> fallback_title mid (md_timestamp md))"

text \<open>
  \<open>build_description\<close> and \<open>build_tags\<close> call \<open>.title()\<close> and \<open>.strip()\<close> outside any \<open>try\<close>;
  they raise when a player's name or character is \<open>None\<close>.
\<close>

definition metadata_raises :: "metadata \<Rightarrow> bool" where
  "metadata_raises md = list_ex (\<lambda>p. pm_name p = None \<or> pm_character p = None) (md_players md)"

section \<open>youtube\_uploader.py: the transfer and its retries\<close>

text \<open>
  What one call of \<open>request.next_chunk()\<close> does: it returns a response (with the video
  identifier when the response has the key \<open>id\<close>), returns no response yet, raises
  \<open>HttpError\<close> with a status, or raises another exception.
\<close>

datatype chunk_outcome =
    Response "string option"
  | NoResponseYet
  | RaisesHttpError nat
  | RaisesOther

datatype upload_result = Returned "string option" | Raised py_error

definition max_retries :: nat where
  "max_retries = 3"

definition retriable_status :: "nat \<Rightarrow> bool" where
  "retriable_status s = (s \<in> set [500, 502, 503, 504])"

text \<open>
  The loop of \<open>_resumable_upload\<close> (lines 399--431). Its state is \<open>retry\<close>, whether \<open>error\<close>
  is set (it is never cleared), the number of calls of \<open>next_chunk\<close> made so far and the
  sleeps taken so far; \<open>rnd i\<close> is the \<open>i\<close>-th value of \<open>random.random()\<close>. The loop need not
  end (a transfer may keep answering without a response), so not returning is \<open>None\<close>.
\<close>

partial_function (option) resumable_loop ::
  "(nat \<Rightarrow> chunk_outcome) \<Rightarrow> (nat \<Rightarrow> real) \<Rightarrow> nat \<Rightarrow> bool \<Rightarrow> nat \<Rightarrow> real list
     \<Rightarrow> (upload_result \<times> nat \<times> real list) option" where
  "resumable_loop chunk rnd retry error n sleeps =
     (if retry \<le> max_retries
      then (case chunk n of
              Response r \<Rightarrow> Some (Returned r, n + 1, sleeps)
            | RaisesHttpError s \<Rightarrow>
                if retriable_status s
                then (if retry + 1 > max_retries then Some (Returned None, n + 1, sleeps)
                      else resumable_loop chunk rnd (retry + 1) True (n + 1)
                             (sleeps @ [rnd (length sleeps) * 2 ^ (retry + 1)]))
                else Some (Raised (HttpError s), n + 1, sleeps)
            | RaisesOther \<Rightarrow>
                if retry + 1 > max_retries then Some (Returned None, n + 1, sleeps)
                else resumable_loop chunk rnd (retry + 1) True (n + 1)
                       (sleeps @ [rnd (length sleeps) * 2 ^ (retry + 1)])
            | NoResponseYet \<Rightarrow>
                if error
                then (if retry + 1 > max_retries then Some (Returned None, n + 1, sleeps)
                      else resumable_loop chunk rnd (retry + 1) True (n + 1)
                             (sleeps @ [rnd (length sleeps) * 2 ^ (retry + 1)]))
                else resumable_loop chunk rnd retry False (n + 1) sleeps)
      else Some (Returned None, n, sleeps))"

definition resumable_upload ::
  "(nat \<Rightarrow> chunk_outcome) \<Rightarrow> (nat \<Rightarrow> real) \<Rightarrow> (upload_result \<times> nat \<times> real list) option" where
  "resumable_upload chunk rnd = resumable_loop chunk rnd 0 False 0 []"

section \<open>youtube\_uploader.py: quota and upload\<close>

record uploader =
  youtube_ready :: bool
  daily_upload_count :: nat
  last_reset_date :: int
  default_playlist_id :: "string option"

text \<open>\<open>check_quota_available\<close> (lines 100--116); \<open>today\<close> is \<open>datetime.now().date()\<close>.\<close>

definition check_quota_available :: "int \<Rightarrow> uploader \<Rightarrow> bool \<times> uploader" where
  "check_quota_available today u =
     (let u1 = (if today \<noteq> last_reset_date u
                then u\<lparr>daily_upload_count := 0, last_reset_date := today\<rparr> else u)
      in if daily_upload_count u1 \<ge> 5 then (False, u1) else (True, u1))"

text \<open>
  What lies outside \<open>upload_video\<close> during one call: the file, the date, whether
  authentication succeeds, whether building the request raises, the transfer, and the
  playlist calls (which catch \<open>HttpError\<close> only, so another exception leaves them).
\<close>

record upload_env =
  file_exists :: bool
  today :: int
  auth_ok :: bool
  request_raises :: bool
  chunk :: "nat \<Rightarrow> chunk_outcome"
  rnd :: "nat \<Rightarrow> real"
  playlist_lookup :: "py_error + string option"
  add_item_raises :: bool

record upload_report =
  video_url :: "string option"
  uploader_after :: uploader
  chunk_calls :: nat
  sleeps_taken :: "real list"

definition truthy :: "string option \<Rightarrow> bool" where
  "truthy s = (case s of None \<Rightarrow> False | Some t \<Rightarrow> t \<noteq> [])"

text \<open>Lines 369--377, after the counter was incremented.\<close>

definition add_to_playlist ::
  "upload_env \<Rightarrow> uploader \<Rightarrow> string option \<Rightarrow> py_error + uploader" where
  "add_to_playlist env u playlist_name =
     (if truthy playlist_name
      then (if \<not> truthy (default_playlist_id u)
            then (case playlist_lookup env of
                    Inl e \<Rightarrow> Inl e
                  | Inr p \<Rightarrow>
                      if truthy p \<and> add_item_raises env then Inl ApiError
                      else Inr (u\<lparr>default_playlist_id := p\<rparr>))
            else if add_item_raises env then Inl ApiError else Inr u)
      else Inr u)"

definition upload_video ::
  "upload_env \<Rightarrow> uploader \<Rightarrow> string \<Rightarrow> int \<Rightarrow> metadata \<Rightarrow> string option \<Rightarrow> upload_report option" where
  "upload_video env u filepath mid md playlist_name =
     (if \<not> file_exists env
      then Some \<lparr>video_url = None, uploader_after = u, chunk_calls = 0, sleeps_taken = []\<rparr>
      else
        (let q = check_quota_available (today env) u; u1 = snd q
         in if \<not> fst q
            then Some \<lparr>video_url = None, uploader_after = u1, chunk_calls = 0, sleeps_taken = []\<rparr>
            else if \<not> youtube_ready u1 \<and> \<not> auth_ok env
            then Some \<lparr>video_url = None, uploader_after = u1, chunk_calls = 0, sleeps_taken = []\<rparr>
            else
              (let u2 = u1\<lparr>youtube_ready := True\<rparr>
               in if metadata_raises md \<or> request_raises env
                  then Some \<lparr>video_url = None, uploader_after = u2, chunk_calls = 0,
                             sleeps_taken = []\<rparr>
                  else
                    (case resumable_upload (chunk env) (rnd env) of
                       None \<Rightarrow> None
                     | Some (Raised e, n, sl) \<Rightarrow>
                         Some \<lparr>video_url = None, uploader_after = u2, chunk_calls = n,
                               sleeps_taken = sl\<rparr>
                     | Some (Returned None, n, sl) \<Rightarrow>
                         Some \<lparr>video_url = None, uploader_after = u2, chunk_calls = n,
                               sleeps_taken = sl\<rparr>
                     | Some (Returned (Some vid), n, sl) \<Rightarrow>
                         (let u3 = u2\<lparr>daily_upload_count := daily_upload_count u2 + 1\<rparr>
                          in (case add_to_playlist env u3 playlist_name of
                                Inl e \<Rightarrow>
                                  Some \<lparr>video_url = None, uploader_after = u3, chunk_calls = n,
                                        sleeps_taken = sl\<rparr>
                              | Inr u4 \<Rightarrow>
                                  Some \<lparr>video_url = Some (''https://www.youtube.com/watch?v='' @ vid),
                                        uploader_after = u4, chunk_calls = n,
                                        sleeps_taken = sl\<rparr>))))))"

text \<open>A participant as the upload metadata has it, and a timestamp.\<close>

definition example_player :: "string \<Rightarrow> string \<Rightarrow> bool \<Rightarrow> player_meta" where
  "example_player n c w =
     \<lparr>pm_name = Some n, pm_character = Some c, pm_kos = 2, pm_falls = 1, pm_sds = 0, pm_won = w\<rparr>"

definition example_datetime :: datetime where
  "example_datetime =
     \<lparr>dt_year = 2024, dt_month = 1, dt_day = 15, dt_hour = 14, dt_minute = 30, dt_second = 52\<rparr>"

text \<open>The outcomes of \<open>next_chunk\<close> after which the loop sleeps and tries again.\<close>

definition transient :: "chunk_outcome \<Rightarrow> bool" where
  "transient c = (case c of RaisesHttpError s \<Rightarrow> retriable_status s | RaisesOther \<Rightarrow> True
                  | _ \<Rightarrow> False)"

text \<open>Transfers used as examples: failures with status 503 before a response, and so on.\<close>

definition fails_then_succeeds :: "nat \<Rightarrow> nat \<Rightarrow> chunk_outcome" where
  "fails_then_succeeds k i = (if i < k then RaisesHttpError 503 else Response (Some ''abc123''))"

definition always_fails :: "nat \<Rightarrow> chunk_outcome" where
  "always_fails i = RaisesOther"

definition not_implemented_then_succeeds :: "nat \<Rightarrow> chunk_outcome" where
  "not_implemented_then_succeeds i = (if i = 0 then RaisesHttpError 501 else Response (Some ''abc123''))"

definition half :: "nat \<Rightarrow> real" where
  "half i = 1 / 2"

definition example_uploader :: "nat \<Rightarrow> uploader" where
  "example_uploader c =
     \<lparr>youtube_ready = True, daily_upload_count = c, last_reset_date = 19737,
      default_playlist_id = Some ''PL1''\<rparr>"

definition example_upload_env :: "int \<Rightarrow> (nat \<Rightarrow> chunk_outcome) \<Rightarrow> upload_env" where
  "example_upload_env day c =
     \<lparr>file_exists = True, today = day, auth_ok = True, request_raises = False, chunk = c,
      rnd = half, playlist_lookup = Inr (Some ''PL1''), add_item_raises = False\<rparr>"

definition example_metadata :: metadata where
  "example_metadata =
     \<lparr>md_players = [example_player ''habeas'' ''MARIO'' True, example_player ''kento'' ''luigi'' False],
      md_timestamp = TsDatetime example_datetime\<rparr>"

section \<open>bulk\_upload\_to\_youtube.py: parsing a file name\<close>

text \<open>\<open>filename.replace('.mp4', '')\<close> removes every occurrence, from left to right.\<close>

fun remove_mp4 :: "string \<Rightarrow> string" where
  "remove_mp4 (a # b # c # d # rest) =
     (if [a, b, c, d] = ''.mp4'' then remove_mp4 rest else a # remove_mp4 (b # c # d # rest))"
| "remove_mp4 s = s"

text \<open>The pattern \<open>\d{8}_\d{6}\<close>, matching a whole string.\<close>

definition is_timestamp_str :: "string \<Rightarrow> bool" where
  "is_timestamp_str t =
     (length t = 15 \<and> list_all is_digit (take 8 t) \<and> t ! 8 = CHR ''_''
      \<and> list_all is_digit (drop 9 t))"

text \<open>
  \<open>(\d+)-(\d{8}_\d{6})\<close> matching a whole string, with its two groups: the digits are
  the longest run of digits at the start, since a hyphen has to follow them.
\<close>

definition full_match_id_timestamp :: "string \<Rightarrow> (string \<times> string) option" where
  "full_match_id_timestamp s =
     (let ds = takeWhile is_digit s; rest = dropWhile is_digit s
      in if ds \<noteq> [] \<and> rest \<noteq> [] \<and> hd rest = CHR ''-'' \<and> is_timestamp_str (tl rest)
         then Some (ds, tl rest) else None)"

text \<open>\<open>re.match(r'^(\d+)-(\d{8}_\d{6})$', base)\<close> and \<open>re.match(r'^(\d{8}_\d{6})$', base)\<close>.\<close>

definition re_match_id_timestamp :: "string \<Rightarrow> (string \<times> string) option" where
  "re_match_id_timestamp base =
     (case full_match_id_timestamp base of
        Some g \<Rightarrow> Some g
      | None \<Rightarrow> full_match_id_timestamp (chomp base))"

definition re_match_timestamp :: "string \<Rightarrow> string option" where
  "re_match_timestamp base =
     (if is_timestamp_str base then Some base
      else if is_timestamp_str (chomp base) then Some (chomp base) else None)"

definition digit_value :: "char \<Rightarrow> nat" where
  "digit_value c = (case map_of (zip ''0123456789'' [0, 1, 2, 3, 4, 5, 6, 7, 8, 9]) c of
                      Some v \<Rightarrow> v | None \<Rightarrow> 0)"

definition nat_of_digits :: "string \<Rightarrow> nat" where
  "nat_of_digits ds = foldl (\<lambda>n c. 10 * n + digit_value c) 0 ds"

definition is_leap :: "nat \<Rightarrow> bool" where
  "is_leap y = (y mod 4 = 0 \<and> (y mod 100 \<noteq> 0 \<or> y mod 400 = 0))"

definition days_in_month :: "nat \<Rightarrow> nat \<Rightarrow> nat" where
  "days_in_month y m =
     (if m = 2 then (if is_leap y then 29 else 28)
      else if m \<in> set [4, 6, 9, 11] then 30 else 31)"

text \<open>
  \<open>datetime.strptime(s, "%Y%m%d_%H%M%S")\<close> on a string of eight digits, an underscore and
  six digits: every field has its full width, and a field out of range, or a date that
  does not exist, raises \<open>ValueError\<close>.
\<close>

definition strptime :: "string \<Rightarrow> py_error + datetime" where
  "strptime s =
     (let y = nat_of_digits (take 4 s);
          m = nat_of_digits (take 2 (drop 4 s));
          d = nat_of_digits (take 2 (drop 6 s));
          hh = nat_of_digits (take 2 (drop 9 s));
          mm = nat_of_digits (take 2 (drop 11 s));
          ss = nat_of_digits (take 2 (drop 13 s))
      in if 1 \<le> y \<and> 1 \<le> m \<and> m \<le> 12 \<and> 1 \<le> d \<and> d \<le> days_in_month y m
            \<and> hh \<le> 23 \<and> mm \<le> 59 \<and> ss \<le> 59
         then Inr \<lparr>dt_year = y, dt_month = m, dt_day = d, dt_hour = hh, dt_minute = mm,
                   dt_second = ss\<rparr>
         else Inl ValueError)"

record parsed =
  parsed_match_id :: "int option"
  parsed_timestamp :: datetime

text \<open>\<open>parse_filename\<close> (lines 51--80). A \<open>ValueError\<close> of \<open>strptime\<close> is not caught here.\<close>

definition parse_filename :: "string \<Rightarrow> py_error + parsed option" where
  "parse_filename filename =
     (let base = remove_mp4 filename
      in case re_match_id_timestamp base of
           Some (id_str, timestamp_str) \<Rightarrow>
             (case strptime timestamp_str of
                Inl e \<Rightarrow> Inl e
              | Inr ts \<Rightarrow> Inr (Some \<lparr>parsed_match_id = Some (int (nat_of_digits id_str)),
                                        parsed_timestamp = ts\<rparr>))
         | None \<Rightarrow>
             (case re_match_timestamp base of
                Some timestamp_str \<Rightarrow>
                  (case strptime timestamp_str of
                     Inl e \<Rightarrow> Inl e
                   | Inr ts \<Rightarrow> Inr (Some \<lparr>parsed_match_id = None, parsed_timestamp = ts\<rparr>))
              | None \<Rightarrow> Inr None))"

section \<open>bulk\_upload\_to\_youtube.py: finding the match record\<close>

text \<open>
  A naive datetime read as UTC, in microseconds since the epoch, by the proleptic
  Gregorian ordinal of its date.
\<close>

definition days_before_year :: "nat \<Rightarrow> nat" where
  "days_before_year y = (y - 1) * 365 + (y - 1) div 4 - (y - 1) div 100 + (y - 1) div 400"

definition days_before_month :: "nat \<Rightarrow> nat \<Rightarrow> nat" where
  "days_before_month y m = sum_list (map (days_in_month y) [1..<m])"

definition utc_seconds :: "datetime \<Rightarrow> int" where
  "utc_seconds dt =
     (int (days_before_year (dt_year dt) + days_before_month (dt_year dt) (dt_month dt)
           + dt_day dt) - 719163) * 86400
     + int (dt_hour dt) * 3600 + int (dt_minute dt) * 60 + int (dt_second dt)"

definition utc_micros :: "datetime \<Rightarrow> instant" where
  "utc_micros dt = utc_seconds dt * 1000000"

text \<open>
  Python's \<open>min(xs, key=f)\<close> on a non-empty list keeps the first element whose key is
  smallest: a later element replaces the best one only when its key is strictly smaller.
\<close>

fun min_by :: "('a \<Rightarrow> int) \<Rightarrow> 'a \<Rightarrow> 'a list \<Rightarrow> 'a" where
  "min_by key best [] = best"
| "min_by key best (x # xs) = min_by key (if key x < key best then x else best) xs"

text \<open>
  What lies outside \<open>process_video\<close> during one call: which store calls raise, the local
  time zone (for \<open>timestamp.timestamp()\<close>), the calendar reading of a stored timestamp,
  and the world of the upload.
\<close>

record bulk_env =
  find_raises :: bool
  fetch_raises :: bool
  status_raises :: bool
  save_raises :: bool
  player_lookup_raises :: "string \<Rightarrow> bool"
  local_utc_offset :: "datetime \<Rightarrow> int"
  fromisoformat :: "instant \<Rightarrow> datetime"
  upload_world :: upload_env

definition time_delta :: "instant \<Rightarrow> match_row \<Rightarrow> int" where
  "time_delta t m = \<bar>created_at m - t\<bar>"

definition matches_between :: "db \<Rightarrow> instant \<Rightarrow> instant \<Rightarrow> match_row list" where
  "matches_between d lo hi = filter (\<lambda>m. lo \<le> created_at m \<and> created_at m \<le> hi) (matches d)"

text \<open>\<open>find_match_by_timestamp\<close> (lines 82--127); the rows come in the store's order.\<close>

definition find_match_by_timestamp :: "bulk_env \<Rightarrow> db \<Rightarrow> datetime \<Rightarrow> int \<Rightarrow> match_row option" where
  "find_match_by_timestamp env d timestamp tolerance_seconds =
     (if find_raises env then None
      else
        (let timestamp_utc = utc_micros timestamp;
             start_time = timestamp_utc - tolerance_seconds * 1000000;
             end_time = timestamp_utc + tolerance_seconds * 1000000
         in case matches_between d start_time end_time of
              [] \<Rightarrow> None
            | [m] \<Rightarrow> Some m
            | m # rest \<Rightarrow> Some (min_by (time_delta timestamp_utc) m rest)))"

definition fetch_match :: "bulk_env \<Rightarrow> db \<Rightarrow> int \<Rightarrow> match_row option" where
  "fetch_match env d mid =
     (if fetch_raises env then None else find (\<lambda>m. match_id m = mid) (matches d))"

text \<open>\<open>is_already_uploaded\<close> (lines 181--194).\<close>

definition is_already_uploaded :: "bulk_env \<Rightarrow> db \<Rightarrow> int option \<Rightarrow> bool" where
  "is_already_uploaded env d mid =
     (case mid of
        None \<Rightarrow> False
      | Some i \<Rightarrow>
          if status_raises env then False
          else (case find (\<lambda>m. match_id m = i) (matches d) of
                  None \<Rightarrow> False
                | Some m \<Rightarrow> youtube_url m \<noteq> None \<and> youtube_url m \<noteq> Some []))"

definition save_youtube_url :: "bulk_env \<Rightarrow> db \<Rightarrow> int \<Rightarrow> string \<Rightarrow> db" where
  "save_youtube_url env d mid url =
     (if save_raises env then d
      else d\<lparr>matches := map (\<lambda>m. if match_id m = mid then m\<lparr>youtube_url := Some url\<rparr> else m)
                             (matches d)\<rparr>)"

text \<open>\<open>get_match_metadata\<close> and \<open>build_legacy_metadata\<close> (lines 129--179).\<close>

definition player_display_name :: "bulk_env \<Rightarrow> db \<Rightarrow> string \<Rightarrow> string" where
  "player_display_name env d pid =
     (if pid = [] \<or> player_lookup_raises env pid then ''Unknown''
      else (case find (\<lambda>p. player_id p = pid) (players d) of
              None \<Rightarrow> ''Unknown''
            | Some p \<Rightarrow> display_name p))"

definition get_match_metadata :: "bulk_env \<Rightarrow> db \<Rightarrow> match_row \<Rightarrow> metadata" where
  "get_match_metadata env d m =
     \<lparr>md_players =
        map (\<lambda>p. \<lparr>pm_name = Some (player_display_name env d (mp_player p)),
                   pm_character = Some (mp_smash_character p), pm_kos = mp_total_kos p,
                   pm_falls = mp_total_falls p, pm_sds = mp_total_sds p, pm_won = mp_has_won p\<rparr>)
          (filter (\<lambda>p. mp_match_id p = match_id m) (match_participants d)),
      md_timestamp = TsDatetime (fromisoformat env (created_at m))\<rparr>"

definition build_legacy_metadata :: "datetime \<Rightarrow> metadata" where
  "build_legacy_metadata timestamp =
     \<lparr>md_players = [\<lparr>pm_name = Some ''Unknown'', pm_character = Some ''Unknown'', pm_kos = 0,
                      pm_falls = 0, pm_sds = 0, pm_won = False\<rparr>],
      md_timestamp = TsDatetime timestamp\<rparr>"

section \<open>bulk\_upload\_to\_youtube.py: one file and the run\<close>

record bulk_stats =
  total_files :: nat
  already_uploaded :: nat
  successful :: nat
  failed :: nat
  skipped :: nat

text \<open>
  The state the script carries from file to file: the store, its statistics, the global
  uploader, and the calls of \<open>upload_video\<close> it has made (file path and match identifier).
\<close>

record bulk_state =
  bs_db :: db
  bs_stats :: bulk_stats
  bs_uploader :: uploader
  bs_uploads :: "(string \<times> int) list"

definition basename :: "string \<Rightarrow> string" where
  "basename p = rev (takeWhile (\<lambda>c. c \<noteq> CHR ''/'') (rev p))"

text \<open>Lines 229--251: the identifier and the record the file resolves to.\<close>

definition resolve_match :: "bulk_env \<Rightarrow> db \<Rightarrow> parsed \<Rightarrow> int option \<times> match_row option" where
  "resolve_match env d p =
     (case parsed_match_id p of
        None \<Rightarrow>
          (case find_match_by_timestamp env d (parsed_timestamp p) 5 of
             None \<Rightarrow> (None, None)
           | Some m \<Rightarrow> (Some (match_id m), Some m))
      | Some i \<Rightarrow> (Some i, fetch_match env d i))"

text \<open>Lines 259--289, once the file is not skipped as already uploaded.\<close>

definition upload_and_record ::
  "bulk_env \<Rightarrow> bool \<Rightarrow> bulk_state \<Rightarrow> string \<Rightarrow> parsed \<Rightarrow> int option \<Rightarrow> match_row option
     \<Rightarrow> string option \<Rightarrow> ((py_error + bool) \<times> bulk_state) option" where
  "upload_and_record env dry_run st filepath p mid match_record playlist_name =
     (let md = (case match_record of
                  Some m \<Rightarrow> get_match_metadata env (bs_db st) m
                | None \<Rightarrow> build_legacy_metadata (parsed_timestamp p));
          i = (case mid of
                 Some i \<Rightarrow> i
               | None \<Rightarrow> utc_seconds (parsed_timestamp p)
                          - local_utc_offset env (parsed_timestamp p))
      in if dry_run then Some (Inr True, st)
         else
           (case upload_video (upload_world env) (bs_uploader st) filepath i md playlist_name of
              None \<Rightarrow> None
            | Some rep \<Rightarrow>
                (let st1 = st\<lparr>bs_uploader := uploader_after rep,
                              bs_uploads := bs_uploads st @ [(filepath, i)]\<rparr>
                 in if truthy (video_url rep)
                    then
                      (let d1 = (case match_record of
                                   Some m \<Rightarrow> save_youtube_url env (bs_db st1) i (the (video_url rep))
                                 | None \<Rightarrow> bs_db st1)
                       in Some (Inr True,
                                st1\<lparr>bs_db := d1,
                                    bs_stats := (bs_stats st1)\<lparr>successful := successful (bs_stats st1) + 1\<rparr>\<rparr>))
                    else Some (Inr False,
                               st1\<lparr>bs_stats := (bs_stats st1)\<lparr>failed := failed (bs_stats st1) + 1\<rparr>\<rparr>))))"

text \<open>
  \<open>process_video\<close> (lines 208--289). The test of line 254 reads \<open>match_id\<close> as a truth
  value, which is false for \<open>None\<close> and for \<open>0\<close>.
\<close>

definition bulk_process_video ::
  "bulk_env \<Rightarrow> bool \<Rightarrow> bulk_state \<Rightarrow> string \<Rightarrow> bool \<Rightarrow> string option
     \<Rightarrow> ((py_error + bool) \<times> bulk_state) option" where
  "bulk_process_video env dry_run st filepath skip_uploaded playlist_name =
     (case parse_filename (basename filepath) of
        Inl e \<Rightarrow> Some (Inl e, st)
      | Inr None \<Rightarrow>
          Some (Inr False, st\<lparr>bs_stats := (bs_stats st)\<lparr>skipped := skipped (bs_stats st) + 1\<rparr>\<rparr>)
      | Inr (Some p) \<Rightarrow>
          (let r = resolve_match env (bs_db st) p; mid = fst r; match_record = snd r
           in if skip_uploaded \<and> mid \<noteq> None \<and> mid \<noteq> Some 0
                 \<and> is_already_uploaded env (bs_db st) mid
              then Some (Inr False,
                         st\<lparr>bs_stats := (bs_stats st)\<lparr>already_uploaded :=
                                                          already_uploaded (bs_stats st) + 1\<rparr>\<rparr>)
              else upload_and_record env dry_run st filepath p mid match_record playlist_name))"

text \<open>
  The loop of \<open>run\<close> (lines 339--347) over the files, each with its world; an exception
  that leaves \<open>process_video\<close> is counted as failed.
\<close>

fun bulk_run ::
  "bool \<Rightarrow> bool \<Rightarrow> string option \<Rightarrow> (string \<times> bulk_env) list \<Rightarrow> bulk_state \<Rightarrow> bulk_state option" where
  "bulk_run dry_run skip_uploaded playlist_name [] st = Some st"
| "bulk_run dry_run skip_uploaded playlist_name (f # fs) st =
     (case bulk_process_video (snd f) dry_run st (fst f) skip_uploaded playlist_name of
        None \<Rightarrow> None
      | Some (Inl e, st1) \<Rightarrow>
          bulk_run dry_run skip_uploaded playlist_name fs
            (st1\<lparr>bs_stats := (bs_stats st1)\<lparr>failed := failed (bs_stats st1) + 1\<rparr>\<rparr>)
      | Some (Inr b, st1) \<Rightarrow> bulk_run dry_run skip_uploaded playlist_name fs st1)"

text \<open>\<open>run\<close> (lines 308--350): the number of files is recorded, then the loop runs.\<close>

definition run ::
  "bool \<Rightarrow> bool \<Rightarrow> string option \<Rightarrow> (string \<times> bulk_env) list \<Rightarrow> bulk_state \<Rightarrow> bulk_state option" where
  "run dry_run skip_uploaded playlist_name files st =
     bulk_run dry_run skip_uploaded playlist_name files
       (st\<lparr>bs_stats := (bs_stats st)\<lparr>total_files := length files\<rparr>\<rparr>)"

text \<open>
  A world in which no store call raises, for a file that exists and uploads at the first
  attempt; two match rows two seconds before and two seconds after 2024-01-15 14:30:52 UTC.
\<close>

definition example_bulk_env :: bulk_env where
  "example_bulk_env =
     \<lparr>find_raises = False, fetch_raises = False, status_raises = False, save_raises = False,
      player_lookup_raises = (\<lambda>p. False), local_utc_offset = (\<lambda>t. 0),
      fromisoformat = (\<lambda>t. example_datetime),
      upload_world = example_upload_env 19737 (fails_then_succeeds 0)\<rparr>"

definition row_before :: match_row where
  "row_before = \<lparr>match_id = 1, created_at = 1705329050000000, youtube_url = None\<rparr>"

definition row_after :: match_row where
  "row_after = \<lparr>match_id = 2, created_at = 1705329054000000, youtube_url = None\<rparr>"

definition db_of_matches :: "match_row list \<Rightarrow> db" where
  "db_of_matches ms = \<lparr>players = [], matches = ms, match_participants = [], match_seq = 2\<rparr>"











section \<open>Properties of the sample window\<close>

lemma window_insert_length_eq:
  "length (fst w) = length (snd w) \<Longrightarrow>
   length (fst (window_insert w f c)) = length (snd (window_insert w f c))"
  by (simp add: window_insert_def Let_def)

lemma window_insert_bound:
  "length (fst w) \<le> max_frames \<Longrightarrow> length (fst (window_insert w f c)) \<le> max_frames"
  by (auto simp add: window_insert_def Let_def max_frames_def)

lemma window_insert_lower:
  "min n 3551 \<le> length (fst w) \<Longrightarrow> length (fst w) \<le> max_frames \<Longrightarrow>
   min (Suc n) 3551 \<le> length (fst (window_insert w f c))"
  by (auto simp add: window_insert_def Let_def max_frames_def)

lemma window_insert_suffix:
  assumes "fst w = drop k fs" "snd w = drop k ss" "k \<le> length fs" "length fs = length ss"
  shows "\<exists>k'. k' \<le> Suc (length fs) \<and> fst (window_insert w f c) = drop k' (fs @ [f])
            \<and> snd (window_insert w f c) = drop k' (ss @ [c])"
proof (cases "length (fst w @ [f]) > max_frames")
  case False
  with assms have "fst (window_insert w f c) = drop k (fs @ [f])"
     "snd (window_insert w f c) = drop k (ss @ [c])"
    by (simp_all add: window_insert_def Let_def)
  with assms(3) show ?thesis by (intro exI[of _ k]) simp
next
  case True
  define ch where "ch = min 50 (length (fst w @ [f]) div 4)"
  from True assms have "fst (window_insert w f c) = drop (k + ch) (fs @ [f])"
     "snd (window_insert w f c) = drop (k + ch) (ss @ [c])"
    by (simp_all add: window_insert_def Let_def ch_def add.commute)
  moreover have "k + ch \<le> Suc (length fs)" using assms by (simp add: ch_def) 
  ultimately show ?thesis by blast
qed

lemma insert_all_snoc:
  "insert_all (xs @ [x]) = window_insert (insert_all xs) (fst x) (snd x)"
  by (simp add: insert_all_def)

lemma insert_all_inv:
  "length (fst (insert_all xs)) \<le> max_frames
   \<and> min (length xs) 3551 \<le> length (fst (insert_all xs))
   \<and> (\<exists>k\<le>length xs. fst (insert_all xs) = drop k (map fst xs) \<and> snd (insert_all xs) = drop k (map snd xs))"
proof (induction xs rule: rev_induct)
  case Nil
  show ?case by (simp add: insert_all_def)
next
  case (snoc x xs)
  then obtain k where k: "k \<le> length xs" "fst (insert_all xs) = drop k (map fst xs)"
     "snd (insert_all xs) = drop k (map snd xs)" by blast
  from window_insert_suffix[OF k(2) k(3), of "fst x" "snd x"] k(1)
  obtain k' where "k' \<le> Suc (length xs)"
    "fst (window_insert (insert_all xs) (fst x) (snd x)) = drop k' (map fst xs @ [fst x])"
    "snd (window_insert (insert_all xs) (fst x) (snd x)) = drop k' (map snd xs @ [snd x])"
    by auto
  then have "\<exists>k\<le>length (xs @ [x]). fst (insert_all (xs @ [x])) = drop k (map fst (xs @ [x]))
      \<and> snd (insert_all (xs @ [x])) = drop k (map snd (xs @ [x]))"
    by (auto simp: insert_all_snoc)
  moreover have "length (fst (insert_all (xs @ [x]))) \<le> max_frames"
    using snoc by (simp add: insert_all_snoc window_insert_bound)
  moreover have "min (length (xs @ [x])) 3551 \<le> length (fst (insert_all (xs @ [x])))"
    using snoc window_insert_lower[of "length xs" "insert_all xs"] by (simp add: insert_all_snoc)
  ultimately show ?case by blast
qed

lemma sample_foldl:
  "frames (foldl (sample_step detect) st video) =
     fst (foldl (\<lambda>w x. window_insert w (fst x) (snd x)) (frames st, scores st)
            (map (\<lambda>f. (f, detect f)) (sampled (frame_count st) video)))
   \<and> scores (foldl (sample_step detect) st video) =
     snd (foldl (\<lambda>w x. window_insert w (fst x) (snd x)) (frames st, scores st)
            (map (\<lambda>f. (f, detect f)) (sampled (frame_count st) video)))"
proof (induction video arbitrary: st)
  case Nil show ?case by simp
next
  case (Cons f fs)
  show ?case
    using Cons.IH[of "sample_step detect st f"]
    by (simp add: sample_step_def Let_def)
qed

lemma sample_frames_insert_all:
  "frames (sample_frames detect video) = fst (insert_all (map (\<lambda>f. (f, detect f)) (sampled 0 video)))
   \<and> scores (sample_frames detect video) = snd (insert_all (map (\<lambda>f. (f, detect f)) (sampled 0 video)))"
  using sample_foldl[of detect sampler_init video]
  by (simp add: sample_frames_def insert_all_def sampler_init_def)

lemma insert_all_lengths: "length (snd (insert_all xs)) = length (fst (insert_all xs))"
proof (induction xs rule: rev_induct)
  case Nil show ?case by (simp add: insert_all_def)
next
  case (snoc x xs)
  then show ?case using window_insert_length_eq[of "insert_all xs" "fst x" "snd x"]
    by (simp add: insert_all_snoc)
qed

lemma drop_suffix_explicit:
  assumes "w = drop k l" shows "w = drop (length l - length w) l"
proof (cases "k \<le> length l")
  case True with assms show ?thesis by simp
next
  case False with assms show ?thesis by simp
qed

text \<open>
  Claim C3. After every insertion into the sample window (any number of insertions into
  the empty window) the window holds at most 3600 samples; an insertion that makes the
  size exceed 3600 drops \<open>min 50 (size div 4)\<close> samples from the front, where \<open>size\<close> is
  the size after the append; the two lists stay aligned; the window is a suffix of the
  inserted samples in their order (so it holds the most recent ones), and it never holds
  fewer than the last 3551 of them. The decoding loop's lists are such a run over every
  second frame.
\<close>

theorem window_bounded_and_recent:
  "length (fst (insert_all xs)) \<le> 3600
   \<and> length (snd (insert_all xs)) = length (fst (insert_all xs))
   \<and> fst (insert_all xs) = drop (length xs - length (fst (insert_all xs))) (map fst xs)
   \<and> snd (insert_all xs) = drop (length xs - length (fst (insert_all xs))) (map snd xs)
   \<and> min (length xs) 3551 \<le> length (fst (insert_all xs))
   \<and> insert_all (xs @ [x]) =
       (let fs = fst (insert_all xs) @ [fst x];
            ss = snd (insert_all xs) @ [snd x];
            chunk_size = min 50 (length fs div 4)
        in if length fs > 3600 then (drop chunk_size fs, drop chunk_size ss) else (fs, ss))
   \<and> frames (sample_frames detect video)
       = fst (insert_all (map (\<lambda>f. (f, detect f)) (sampled 0 video)))
   \<and> scores (sample_frames detect video)
       = snd (insert_all (map (\<lambda>f. (f, detect f)) (sampled 0 video)))"
proof -
  from insert_all_inv[of xs] obtain k where
    b: "length (fst (insert_all xs)) \<le> max_frames"
    and l: "min (length xs) 3551 \<le> length (fst (insert_all xs))"
    and f: "fst (insert_all xs) = drop k (map fst xs)"
    and s: "snd (insert_all xs) = drop k (map snd xs)" by blast
  have 1: "length (fst (insert_all xs)) \<le> 3600" using b by (simp add: max_frames_def)
  have 2: "length (snd (insert_all xs)) = length (fst (insert_all xs))" by (rule insert_all_lengths)
  have 3: "fst (insert_all xs) = drop (length xs - length (fst (insert_all xs))) (map fst xs)"
    using drop_suffix_explicit[OF f] by simp
  have 4: "snd (insert_all xs) = drop (length xs - length (fst (insert_all xs))) (map snd xs)"
    using drop_suffix_explicit[OF s] 2 by simp
  have 5: "insert_all (xs @ [x]) =
       (let fs = fst (insert_all xs) @ [fst x];
            ss = snd (insert_all xs) @ [snd x];
            chunk_size = min 50 (length fs div 4)
        in if length fs > 3600 then (drop chunk_size fs, drop chunk_size ss) else (fs, ss))"
    by (simp add: insert_all_snoc window_insert_def Let_def max_frames_def)
  show ?thesis using 1 2 3 4 5 l sample_frames_insert_all[of detect video] by blast
qed

theorem window_bounded_and_recent_witness:
  "insert_all [(1::nat, 1/2), (2, 9/10), (3, 0)] = ([1, 2, 3], [1/2, 9/10, 0])
   \<and> length (fst (insert_all [(1::nat, 1/2), (2, 9/10), (3, 0)])) \<le> 3600
   \<and> frames (sample_frames (\<lambda>n. real n / 10) [5, 6, 7, 8, 9]) = [6, 8]"
proof -
  have a: "insert_all [(1::nat, 1/2), (2, 9/10), (3, 0)] = ([1, 2, 3], [1/2, 9/10, 0])"
    by (simp add: insert_all_def window_insert_def max_frames_def)
  have b: "sampled 0 [5, 6, 7, 8, 9::nat] = [6, 8]"
    by (simp add: frame_skip_interval_def)
  have c: "insert_all [(6::nat, 6/10), (8, 8/10)] = ([6, 8], [6/10, 8/10])"
    by (simp add: insert_all_def window_insert_def max_frames_def)
  show ?thesis
    using window_bounded_and_recent[of "[(1::nat, 1/2), (2, 9/10), (3, 0)]" "(4, 0)" "\<lambda>n. real n / 10" "[5, 6, 7, 8, 9]"]
      a b c by simp
qed

section \<open>Properties of the backward scan\<close>

lemma threshold_test:
  "(x \<ge> game_end_confidence_threshold \<and> x > 0) = (x \<ge> game_end_confidence_threshold)"
  by (auto simp: game_end_confidence_threshold_def)

lemma scan_backward_neg:
  "scan_backward ss n = - 1 \<longleftrightarrow> (\<forall>k<n. ss ! k < game_end_confidence_threshold)"
  by (induction n) (auto simp: threshold_test less_Suc_eq)

lemma scan_backward_index:
  "scan_backward ss n = int k \<longleftrightarrow>
     k < n \<and> ss ! k \<ge> game_end_confidence_threshold
     \<and> (\<forall>j. k < j \<and> j < n \<longrightarrow> ss ! j < game_end_confidence_threshold)"
proof (induction n)
  case 0 show ?case by simp
next
  case (Suc n)
  show ?case
  proof (cases "ss ! n \<ge> game_end_confidence_threshold")
    case True
    then have "scan_backward ss (Suc n) = int n"
      using threshold_test[of "ss ! n"] by simp
    moreover have "(k < Suc n \<and> ss ! k \<ge> game_end_confidence_threshold
       \<and> (\<forall>j. k < j \<and> j < Suc n \<longrightarrow> ss ! j < game_end_confidence_threshold)) \<longleftrightarrow> k = n"
    proof
      assume h: "k < Suc n \<and> ss ! k \<ge> game_end_confidence_threshold
       \<and> (\<forall>j. k < j \<and> j < Suc n \<longrightarrow> ss ! j < game_end_confidence_threshold)"
      show "k = n"
      proof (rule ccontr)
        assume "k \<noteq> n"
        with h have "k < n" by simp
        with h have "ss ! n < game_end_confidence_threshold" by simp
        with True show False by simp
      qed
    next
      assume "k = n" with True show "k < Suc n \<and> ss ! k \<ge> game_end_confidence_threshold
       \<and> (\<forall>j. k < j \<and> j < Suc n \<longrightarrow> ss ! j < game_end_confidence_threshold)" by simp
    qed
    ultimately show ?thesis by (metis of_nat_eq_iff)
  next
    case False
    then have "scan_backward ss (Suc n) = scan_backward ss n" by simp
    moreover have "(k < Suc n \<and> ss ! k \<ge> game_end_confidence_threshold
       \<and> (\<forall>j. k < j \<and> j < Suc n \<longrightarrow> ss ! j < game_end_confidence_threshold)) \<longleftrightarrow>
       (k < n \<and> ss ! k \<ge> game_end_confidence_threshold
       \<and> (\<forall>j. k < j \<and> j < n \<longrightarrow> ss ! j < game_end_confidence_threshold))"
      using False by (auto simp: less_Suc_eq)
    ultimately show ?thesis using Suc by simp
  qed
qed

lemma find_best_frame_index_none:
  "find_best_frame_index ss = - 1 \<longleftrightarrow> (\<forall>k<length ss. ss ! k < game_end_confidence_threshold)"
  by (simp add: find_best_frame_index_def scan_backward_neg)

lemma find_best_frame_index_rightmost:
  assumes "k < length ss" "game_end_confidence_threshold \<le> ss ! k"
    "\<forall>j. k < j \<and> j < length ss \<longrightarrow> ss ! j < game_end_confidence_threshold"
  shows "find_best_frame_index ss = int k"
  using assms by (simp add: find_best_frame_index_def scan_backward_index)

lemma select_segment_found:
  assumes "length fs = length ss" "k < length ss" "game_end_confidence_threshold \<le> ss ! k"
    "\<forall>j. k < j \<and> j < length ss \<longrightarrow> ss ! j < game_end_confidence_threshold"
  shows "select_segment fs ss f42 fps =
           (if length ss - k < 15 then (None, [SequenceTooShort (length ss - k)])
            else (Some (drop k fs, f42, fps), []))"
proof -
  have "find_best_frame_index ss = int k"
    using assms(2-4) by (rule find_best_frame_index_rightmost)
  moreover have "fs \<noteq> []" "ss \<noteq> []" using assms(1,2) by auto
  ultimately show ?thesis using assms(1) by (simp add: select_segment_def Let_def)
qed

lemma select_segment_not_found:
  assumes "\<forall>k<length ss. ss ! k < game_end_confidence_threshold"
  shows "select_segment fs ss f42 fps =
           (None, if fs = [] \<or> ss = [] then [NoFramesCaptured] else [NoFrameAboveThreshold])"
  using assms find_best_frame_index_none[of ss] by (simp add: select_segment_def Let_def)

text \<open>
  Claim C2, as the code has it. The backward scan selects the rightmost index whose score
  is at least the threshold \<open>0.7\<close> (the test is \<open>>=\<close>), whatever larger scores stand to
  its left. When the suffix from that index has at least 15 frames, the suffix is returned
  with frame 42 and the frame rate; when it is shorter, nothing is returned and the length
  is logged. When no index has a score of at least \<open>0.7\<close>, nothing is returned.
\<close>

theorem select_segment_rightmost_at_least_threshold:
  "game_end_confidence_threshold = 7 / 10
   \<and> (length fs = length ss \<and> k < length ss \<and> 7 / 10 \<le> ss ! k
        \<and> (\<forall>j. k < j \<and> j < length ss \<longrightarrow> ss ! j < 7 / 10)
      \<longrightarrow> find_best_frame_index ss = int k
          \<and> select_segment fs ss f42 fps =
             (if length ss - k < 15 then (None, [SequenceTooShort (length ss - k)])
              else (Some (drop k fs, f42, fps), [])))
   \<and> ((\<forall>i<length ss. ss ! i < 7 / 10)
      \<longrightarrow> find_best_frame_index ss = - 1
          \<and> select_segment fs ss f42 fps =
             (None, if fs = [] \<or> ss = [] then [NoFramesCaptured] else [NoFrameAboveThreshold]))"
  using select_segment_found[of fs ss k f42 fps] select_segment_not_found[of ss fs f42 fps]
    find_best_frame_index_rightmost[of k ss] find_best_frame_index_none[of ss]
  by (simp add: game_end_confidence_threshold_def)

theorem select_segment_rightmost_at_least_threshold_witness:
  "select_segment [1, 2, 3, 4, 5, 6, 7, 8, 9, 10, 11, 12, 13, 14, 15, 16 :: nat]
      (1 # 7 / 10 # replicate 14 0) None 30
    = (Some ([2, 3, 4, 5, 6, 7, 8, 9, 10, 11, 12, 13, 14, 15, 16], None, 30), [])
   \<and> select_segment [1, 2 :: nat] [1 / 2, 0] None 30 = (None, [NoFrameAboveThreshold])"
proof -
  let ?fs = "[1, 2, 3, 4, 5, 6, 7, 8, 9, 10, 11, 12, 13, 14, 15, 16 :: nat]"
  let ?ss = "1 # 7 / 10 # replicate 14 (0::real)"
  have h: "\<forall>j. 1 < j \<and> j < length ?ss \<longrightarrow> ?ss ! j < 7 / 10"
    by (auto simp: nth_Cons split: nat.splits)
  have a: "select_segment ?fs ?ss None 30 = (Some (drop 1 ?fs, None, 30), [])"
    using select_segment_rightmost_at_least_threshold[of ?fs ?ss 1 None 30] h by simp
  have g: "\<forall>i<length [1 / 2, 0::real]. [1 / 2, 0::real] ! i < 7 / 10"
    by (auto simp: nth_Cons split: nat.splits)
  have b: "select_segment [1, 2 :: nat] [1 / 2, 0] None 30 = (None, [NoFrameAboveThreshold])"
    using select_segment_rightmost_at_least_threshold[of "[1, 2 :: nat]" "[1 / 2, 0]" 0 None 30] g
    by simp
  show ?thesis using a b by simp
qed

text \<open>
  The claim as the specification words it fails twice: a score equal to \<open>0.7\<close> does not
  exceed the threshold and is selected all the same, and a qualifying index whose suffix
  has fewer than 15 frames gives no suffix.
\<close>

theorem select_segment_exceeds_counterexample:
  "select_segment [1, 2, 3, 4, 5, 6, 7, 8, 9, 10, 11, 12, 13, 14, 15 :: nat]
      (7 / 10 # replicate 14 0) None 30
    = (Some ([1, 2, 3, 4, 5, 6, 7, 8, 9, 10, 11, 12, 13, 14, 15], None, 30), [])
   \<and> \<not> (\<exists>i<15. (7 / 10 # replicate 14 (0::real)) ! i > 7 / 10)
   \<and> select_segment [1 :: nat] [9 / 10] None 30 = (None, [SequenceTooShort 1])"
proof -
  have r: "replicate 14 (0::real) = [0,0,0,0,0,0,0,0,0,0,0,0,0,0]" by (simp add: numeral_eq_Suc)
  have a: "select_segment [1, 2, 3, 4, 5, 6, 7, 8, 9, 10, 11, 12, 13, 14, 15 :: nat]
      (7 / 10 # replicate 14 0) None 30
    = (Some ([1, 2, 3, 4, 5, 6, 7, 8, 9, 10, 11, 12, 13, 14, 15], None, 30), [])"
    unfolding r
    by (simp add: select_segment_def find_best_frame_index_def game_end_confidence_threshold_def
        numeral_eq_Suc)
  have b: "\<not> (\<exists>i<15. (7 / 10 # replicate 14 (0::real)) ! i > 7 / 10)"
    by (auto simp: nth_Cons split: nat.splits)
  have c: "select_segment [1 :: nat] [9 / 10] None 30 = (None, [SequenceTooShort 1])"
    by (simp add: select_segment_def find_best_frame_index_def game_end_confidence_threshold_def)
  show ?thesis using a b c by blast
qed

section \<open>The two detection failures\<close>

lemma batch_process_video_none:
  assumes "fst (extract_result_screen detect (job_video job)) = None"
    "job_created_at job = Some t"
  shows "batch_process_video detect env False d job = (Inr False, d)"
  using assms by (simp add: batch_process_video_def)

text \<open>
  Claim C9, as the code has it. When no score reaches the threshold the function logs that
  no frame was found, and when the suffix from the rightmost qualifying index has fewer
  than 15 frames it logs that the sequence is too short; the two log entries differ, and
  the returned value is \<open>(None, None, None)\<close> in both cases. A file whose extraction
  returns nothing makes \<open>process_video\<close> return \<open>False\<close>, which \<open>process_all\<close> counts as
  skipped: the failed and processed counts and the store stay as they were.
\<close>

theorem detection_failures_skipped:
  "(fs \<noteq> [] \<and> ss \<noteq> [] \<and> (\<forall>i<length ss. ss ! i < game_end_confidence_threshold)
      \<longrightarrow> select_segment fs ss f42 fps = (None, [NoFrameAboveThreshold]))
   \<and> (length fs = length ss \<and> k < length ss \<and> game_end_confidence_threshold \<le> ss ! k
        \<and> (\<forall>j. k < j \<and> j < length ss \<longrightarrow> ss ! j < game_end_confidence_threshold)
        \<and> length ss - k < 15
      \<longrightarrow> select_segment fs ss f42 fps = (None, [SequenceTooShort (length ss - k)]))
   \<and> NoFrameAboveThreshold \<noteq> SequenceTooShort n
   \<and> (fst (extract_result_screen detect (job_video job)) = None \<and> job_created_at job = Some t
      \<longrightarrow> batch_process_video detect env False d job = (Inr False, d)
          \<and> process_all detect env False [job] (c, d)
              = (c\<lparr>skipped_count := skipped_count c + 1\<rparr>, d)
          \<and> failed_count (fst (process_all detect env False [job] (c, d))) = failed_count c
          \<and> processed_count (fst (process_all detect env False [job] (c, d))) = processed_count c)"
proof -
  have a: "fs \<noteq> [] \<and> ss \<noteq> [] \<and> (\<forall>i<length ss. ss ! i < game_end_confidence_threshold)
      \<longrightarrow> select_segment fs ss f42 fps = (None, [NoFrameAboveThreshold])"
    using select_segment_not_found[of ss fs f42 fps] by simp
  have b: "length fs = length ss \<and> k < length ss \<and> game_end_confidence_threshold \<le> ss ! k
        \<and> (\<forall>j. k < j \<and> j < length ss \<longrightarrow> ss ! j < game_end_confidence_threshold)
        \<and> length ss - k < 15
      \<longrightarrow> select_segment fs ss f42 fps = (None, [SequenceTooShort (length ss - k)])"
    using select_segment_found[of fs ss k f42 fps] by simp
  have c: "fst (extract_result_screen detect (job_video job)) = None \<and> job_created_at job = Some t
      \<longrightarrow> batch_process_video detect env False d job = (Inr False, d)
          \<and> process_all detect env False [job] (c, d)
              = (c\<lparr>skipped_count := skipped_count c + 1\<rparr>, d)
          \<and> failed_count (fst (process_all detect env False [job] (c, d))) = failed_count c
          \<and> processed_count (fst (process_all detect env False [job] (c, d))) = processed_count c"
    using batch_process_video_none[of detect job t env d]
    by (simp add: count_result_def Let_def)
  have e: "NoFrameAboveThreshold \<noteq> SequenceTooShort n" by simp
  show ?thesis by (rule conjI[OF a conjI[OF b conjI[OF e c]]])
qed

lemma extract_no_frame_video:
  "extract_result_screen (\<lambda>x. x) no_frame_video = (None, [NoFrameAboveThreshold])"
  by (simp add: Let_def extract_result_screen_def no_frame_video_def sample_frames_def sample_step_def
      sampler_init_def frame_skip_interval_def window_insert_def max_frames_def
      select_segment_def find_best_frame_index_def game_end_confidence_threshold_def)

lemma extract_short_video:
  "extract_result_screen (\<lambda>x. x) short_video = (None, [SequenceTooShort 1])"
  by (simp add: Let_def extract_result_screen_def short_video_def sample_frames_def sample_step_def
      sampler_init_def frame_skip_interval_def window_insert_def max_frames_def
      select_segment_def find_best_frame_index_def game_end_confidence_threshold_def)

text \<open>
  The two failure modes are not told apart by what the function returns: a video with no
  qualifying frame and a video whose result screen is too short give the same value.
\<close>

theorem detection_failures_same_value_counterexample:
  "extract_result_screen (\<lambda>x. x) no_frame_video = (None, [NoFrameAboveThreshold])
   \<and> extract_result_screen (\<lambda>x. x) short_video = (None, [SequenceTooShort 1])
   \<and> fst (extract_result_screen (\<lambda>x. x) no_frame_video)
       = fst (extract_result_screen (\<lambda>x. x) short_video)"
  by (simp add: extract_no_frame_video extract_short_video)

theorem detection_failures_skipped_witness:
  "select_segment [0::real] [0] None 30 = (None, [NoFrameAboveThreshold])
   \<and> select_segment [9 / 10 :: real] [9 / 10] None 30 = (None, [SequenceTooShort 1])
   \<and> process_all (\<lambda>x. x) example_env False
      [\<lparr>job_video = no_frame_video, job_created_at = Some 0, job_writer_ok = True, job_stats = None\<rparr>,
       \<lparr>job_video = short_video, job_created_at = Some 0, job_writer_ok = True, job_stats = None\<rparr>]
      (\<lparr>processed_count = 0, skipped_count = 0, failed_count = 0\<rparr>, example_db)
    = (\<lparr>processed_count = 0, skipped_count = 2, failed_count = 0\<rparr>, example_db)"
proof -
  let ?j1 = "\<lparr>job_video = no_frame_video, job_created_at = Some 0, job_writer_ok = True,
              job_stats = None\<rparr>"
  let ?j2 = "\<lparr>job_video = short_video, job_created_at = Some 0, job_writer_ok = True,
              job_stats = None\<rparr>"
  let ?c0 = "\<lparr>processed_count = 0, skipped_count = 0, failed_count = 0\<rparr>"
  let ?c1 = "\<lparr>processed_count = 0, skipped_count = 1, failed_count = 0\<rparr>"
  have h1: "fst (extract_result_screen (\<lambda>x. x) (job_video ?j1)) = None \<and> job_created_at ?j1 = Some 0"
    by (simp add: extract_no_frame_video)
  have h2: "fst (extract_result_screen (\<lambda>x. x) (job_video ?j2)) = None \<and> job_created_at ?j2 = Some 0"
    by (simp add: extract_short_video)
  have g1: "[0::real] \<noteq> [] \<and> [0::real] \<noteq> []
      \<and> (\<forall>i<length [0::real]. [0::real] ! i < game_end_confidence_threshold)"
    by (simp add: game_end_confidence_threshold_def)
  have g2: "length [9 / 10 :: real] = length [9 / 10 :: real] \<and> 0 < length [9 / 10 :: real]
      \<and> game_end_confidence_threshold \<le> [9 / 10 :: real] ! 0
      \<and> (\<forall>j. 0 < j \<and> j < length [9 / 10 :: real]
             \<longrightarrow> [9 / 10 :: real] ! j < game_end_confidence_threshold)
      \<and> length [9 / 10 :: real] - 0 < 15"
    by (auto simp: game_end_confidence_threshold_def)
  have s1: "select_segment [0::real] [0] None 30 = (None, [NoFrameAboveThreshold])"
    using detection_failures_skipped[of "[0::real]" "[0]" None 30 0 0 "\<lambda>x. x" ?j1 0 example_env
        example_db ?c0] g1
    by blast
  have "select_segment [9 / 10 :: real] [9 / 10] None 30
          = (None, [SequenceTooShort (length [9 / 10 :: real] - 0)])"
    using detection_failures_skipped[of "[9 / 10 :: real]" "[9 / 10]" None 30 0 0 "\<lambda>x. x" ?j2 0
        example_env example_db ?c1] g2
    by blast
  then have s2: "select_segment [9 / 10 :: real] [9 / 10] None 30 = (None, [SequenceTooShort 1])"
    by simp
  have "process_all (\<lambda>x. x) example_env False [?j1] (?c0, example_db)
          = (?c0\<lparr>skipped_count := skipped_count ?c0 + 1\<rparr>, example_db)"
    using detection_failures_skipped[of "[0::real]" "[0]" None 30 0 0 "\<lambda>x. x" ?j1 0 example_env
        example_db ?c0] h1
    by blast
  then have 1: "process_all (\<lambda>x. x) example_env False [?j1] (?c0, example_db) = (?c1, example_db)"
    by simp
  have "process_all (\<lambda>x. x) example_env False [?j2] (?c1, example_db)
          = (?c1\<lparr>skipped_count := skipped_count ?c1 + 1\<rparr>, example_db)"
    using detection_failures_skipped[of "[9 / 10 :: real]" "[9 / 10]" None 30 0 0 "\<lambda>x. x" ?j2 0
        example_env example_db ?c1] h2
    by blast
  then have 2: "process_all (\<lambda>x. x) example_env False [?j2] (?c1, example_db)
            = (\<lparr>processed_count = 0, skipped_count = 2, failed_count = 0\<rparr>, example_db)"
    by simp
  have "process_all (\<lambda>x. x) example_env False [?j1, ?j2] (?c0, example_db)
         = process_all (\<lambda>x. x) example_env False [?j2]
             (process_all (\<lambda>x. x) example_env False [?j1] (?c0, example_db))"
    by (simp add: Let_def)
  then show ?thesis using 1 2 s1 s2 by simp
qed

section \<open>Saving a match\<close>

lemma lit_digits_iff:
  "lit_digits lit s \<longleftrightarrow> (\<exists>ds. ds \<noteq> [] \<and> list_all is_digit ds \<and> s = lit @ ds)"
proof
  assume h: "lit_digits lit s"
  then have "s = lit @ drop (length lit) s" "drop (length lit) s \<noteq> []"
    "list_all is_digit (drop (length lit) s)"
    by (auto simp: lit_digits_def) (metis append_take_drop_id)
  then show "\<exists>ds. ds \<noteq> [] \<and> list_all is_digit ds \<and> s = lit @ ds" by blast
next
  assume "\<exists>ds. ds \<noteq> [] \<and> list_all is_digit ds \<and> s = lit @ ds"
  then show "lit_digits lit s" by (auto simp: lit_digits_def)
qed

lemma lit_digits_chomp: "lit_digits lit s \<Longrightarrow> chomp s = s"
proof -
  assume "lit_digits lit s"
  then obtain ds where ds: "ds \<noteq> []" "list_all is_digit ds" "s = lit @ ds"
    using lit_digits_iff by blast
  then have "last s = last ds" by simp
  moreover have "is_digit (last ds)" using ds by (simp add: list_all_iff)
  ultimately have "last s \<noteq> CHR 0x0A" by (auto simp: is_digit_def)
  then show ?thesis by (simp add: chomp_def)
qed

lemma re_match_lit_digits_iff:
  "re_match_lit_digits lit s \<longleftrightarrow> (\<exists>ds. ds \<noteq> [] \<and> list_all is_digit ds \<and> chomp s = lit @ ds)"
  using lit_digits_chomp[of lit s] lit_digits_iff[of lit s] lit_digits_iff[of lit "chomp s"]
  by (auto simp: re_match_lit_digits_def)

lemma is_unknown_player_name_iff:
  "is_unknown_player_name n \<longleftrightarrow>
     (\<exists>ds. ds \<noteq> [] \<and> list_all is_digit ds
        \<and> (chomp n = ''Player '' @ ds \<or> chomp n = ''P'' @ ds \<or> chomp n = ''P '' @ ds))"
  unfolding is_unknown_player_name_def re_match_lit_digits_iff by blast

lemma example_save:
  "save_match_stats example_env example_db
      [example_stat ''habeas'' ''mario'' False True, example_stat ''kento'' ''luigi'' False False] 7
   = (True,
      \<lparr>players = [\<lparr>player_id = ''id-habeas'', display_name = ''habeas'', elo = 1016\<rparr>,
                   \<lparr>player_id = ''id-kento'', display_name = ''kento'', elo = 984\<rparr>],
       matches = [\<lparr>match_id = 1, created_at = 7, youtube_url = None\<rparr>],
       match_participants =
         [\<lparr>mp_player = ''id-habeas'', mp_smash_character = ''MARIO'', mp_is_cpu = False,
           mp_total_kos = 2, mp_total_falls = 1, mp_total_sds = 0, mp_has_won = True,
           mp_match_id = 1, mp_created_at = 7\<rparr>,
          \<lparr>mp_player = ''id-kento'', mp_smash_character = ''LUIGI'', mp_is_cpu = False,
           mp_total_kos = 2, mp_total_falls = 1, mp_total_sds = 0, mp_has_won = False,
           mp_match_id = 1, mp_created_at = 7\<rparr>],
       match_seq = 1\<rparr>)"
  by (simp add: save_match_stats_def example_env_def example_db_def example_stat_def
      is_unknown_player_name_def re_match_lit_digits_def lit_digits_def chomp_def is_digit_def
      create_match_def get_player_def Let_def finish_match_def update_player_elo_def
      to_upper_def ascii_lowercase_def ascii_uppercase_def)

lemma save_participants_matches:
  "matches (fst (save_participants env mid t stats d acc)) = matches d"
proof (induction stats arbitrary: d acc)
  case Nil show ?case by simp
next
  case (Cons s rest)
  show ?case
    by (auto simp: get_player_def Let_def Cons split: option.splits)
qed

text \<open>
  Claim C10. When every participant has \<open>has_won\<close> false, or some participant is a CPU, or
  some participant's name matches \<open>Player N\<close>, \<open>PN\<close> or \<open>P N\<close>, or the first participant
  is flagged as an online match, \<open>save_match_stats\<close> returns \<open>False\<close> and leaves the whole
  store as it was: no match row, no participant row, no rating update. The match table
  changes only when none of the four holds (and the store client exists and the insert
  does not raise).
\<close>

theorem save_match_stats_guards:
  "((list_all (\<lambda>s. \<not> has_won s) stats \<or> list_ex is_cpu stats
      \<or> list_ex (\<lambda>s. is_unknown_player_name (player_name s)) stats
      \<or> (stats \<noteq> [] \<and> is_online_match (hd stats)))
     \<longrightarrow> save_match_stats env d stats t = (False, d))
   \<and> (matches (snd (save_match_stats env d stats t)) \<noteq> matches d
     \<longrightarrow> client_available env \<and> \<not> create_match_raises env
         \<and> \<not> list_all (\<lambda>s. \<not> has_won s) stats \<and> \<not> list_ex is_cpu stats
         \<and> \<not> list_ex (\<lambda>s. is_unknown_player_name (player_name s)) stats
         \<and> stats \<noteq> [] \<and> \<not> is_online_match (hd stats))"
proof -
  have a: "(list_all (\<lambda>s. \<not> has_won s) stats \<or> list_ex is_cpu stats
      \<or> list_ex (\<lambda>s. is_unknown_player_name (player_name s)) stats
      \<or> (stats \<noteq> [] \<and> is_online_match (hd stats)))
     \<longrightarrow> save_match_stats env d stats t = (False, d)"
    by (cases stats) (auto simp: save_match_stats_def)
  have b: "matches (snd (save_match_stats env d stats t)) \<noteq> matches d
     \<longrightarrow> client_available env \<and> \<not> create_match_raises env
         \<and> \<not> list_all (\<lambda>s. \<not> has_won s) stats \<and> \<not> list_ex is_cpu stats
         \<and> \<not> list_ex (\<lambda>s. is_unknown_player_name (player_name s)) stats
         \<and> stats \<noteq> [] \<and> \<not> is_online_match (hd stats)"
    by (cases stats) (auto simp: save_match_stats_def create_match_def split: if_splits)
  show ?thesis by (rule conjI[OF a b])
qed

theorem save_match_stats_guards_witness:
  "save_match_stats example_env example_db
      [example_stat ''Player 1'' ''mario'' False True, example_stat ''kento'' ''luigi'' False False] 7
     = (False, example_db)
   \<and> save_match_stats example_env example_db
      [example_stat ''habeas'' ''mario'' False True, example_stat ''kento'' ''luigi'' True False] 7
     = (False, example_db)
   \<and> save_match_stats example_env example_db
      [example_stat ''habeas'' ''mario'' False False, example_stat ''kento'' ''luigi'' False False] 7
     = (False, example_db)
   \<and> fst (save_match_stats example_env example_db
      [example_stat ''habeas'' ''mario'' False True, example_stat ''kento'' ''luigi'' False False] 7)
   \<and> matches (snd (save_match_stats example_env example_db
      [example_stat ''habeas'' ''mario'' False True, example_stat ''kento'' ''luigi'' False False] 7))
     = [\<lparr>match_id = 1, created_at = 7, youtube_url = None\<rparr>]"
proof -
  have u: "is_unknown_player_name ''Player 1''"
    by (simp add: is_unknown_player_name_def re_match_lit_digits_def lit_digits_def is_digit_def)
  have 1: "save_match_stats example_env example_db
      [example_stat ''Player 1'' ''mario'' False True, example_stat ''kento'' ''luigi'' False False] 7
     = (False, example_db)"
    using save_match_stats_guards[of
        "[example_stat ''Player 1'' ''mario'' False True, example_stat ''kento'' ''luigi'' False False]"
        example_env example_db 7] u
    by (simp add: example_stat_def)
  have 2: "save_match_stats example_env example_db
      [example_stat ''habeas'' ''mario'' False True, example_stat ''kento'' ''luigi'' True False] 7
     = (False, example_db)"
    using save_match_stats_guards[of
        "[example_stat ''habeas'' ''mario'' False True, example_stat ''kento'' ''luigi'' True False]"
        example_env example_db 7]
    by (simp add: example_stat_def)
  have 3: "save_match_stats example_env example_db
      [example_stat ''habeas'' ''mario'' False False, example_stat ''kento'' ''luigi'' False False] 7
     = (False, example_db)"
    using save_match_stats_guards[of
        "[example_stat ''habeas'' ''mario'' False False, example_stat ''kento'' ''luigi'' False False]"
        example_env example_db 7]
    by (simp add: example_stat_def)
  show ?thesis using 1 2 3 by (simp add: example_save)
qed

section \<open>The video title\<close>

lemma title_from_length: "length (title_from prev s) = length s"
  by (induction s arbitrary: prev) auto

lemma ascii_title_empty: "ascii_title s = [] \<longleftrightarrow> s = []"
  using title_from_length[of False s] by (auto simp: ascii_title_def)

lemma str_of_nat_step: "10 \<le> n \<Longrightarrow> str_of_nat n = str_of_nat (n div 10) @ [digit_char n]"
  by (subst str_of_nat.simps) simp

lemma str_of_nat_digit: "n < 10 \<Longrightarrow> str_of_nat n = [digit_char n]"
  by (subst str_of_nat.simps) simp

lemma year_four_digits:
  assumes "1000 \<le> y" "y < 10000"
  shows "length (str_of_nat y) = 4"
proof -
  have n1: "10 \<le> y" using assms by simp
  have n2: "10 \<le> y div 10" using assms by (simp add: less_eq_div_iff_mult_less_eq)
  have n3: "10 \<le> y div 10 div 10"
    using assms by (simp add: less_eq_div_iff_mult_less_eq div_mult2_eq[symmetric])
  have n4: "y div 10 div 10 div 10 < 10"
    using assms by (simp add: div_mult2_eq[symmetric] div_less_iff_less_mult)
  show ?thesis
    by (simp only: str_of_nat_step[OF n1] str_of_nat_step[OF n2] str_of_nat_step[OF n3]
        str_of_nat_digit[OF n4]) simp
qed

text \<open>
  Claim C8, as the code has it. When the metadata lists at least two players and the first
  two have non-empty names and characters (the character after \<open>str.title()\<close>), the title
  is \<open>P1 (Char1) vs P2 (Char2) - Match #id\<close> built from the first two players, each
  character passed through \<open>str.title()\<close>. When there are fewer than two players, or a
  name or character of the first two is missing or empty, the title is \<open>Match #id - \<close>
  followed by the timestamp as \<open>strftime('%Y-%m-%d %H:%M')\<close> prints it (or by the
  timestamp's text when it is not a datetime). This holds whatever function \<open>title\<close> is.
\<close>

theorem build_title_first_two_players:
  "(md_players md = p1 # p2 # rest
      \<and> pm_name p1 = Some n1 \<and> pm_name p2 = Some n2
      \<and> pm_character p1 = Some c1 \<and> pm_character p2 = Some c2
      \<and> n1 \<noteq> [] \<and> n2 \<noteq> [] \<and> title c1 \<noteq> [] \<and> title c2 \<noteq> []
     \<longrightarrow> build_title title mid md
          = n1 @ '' ('' @ title c1 @ '') vs '' @ n2 @ '' ('' @ title c2
            @ '') - Match #'' @ str_of_int mid)
   \<and> (length (md_players md) < 2
      \<or> (\<exists>p \<in> set (take 2 (md_players md)).
            pm_name p = None \<or> pm_name p = Some [] \<or> pm_character p = None
            \<or> (\<exists>c. pm_character p = Some c \<and> title c = []))
     \<longrightarrow> build_title title mid md
          = ''Match #'' @ str_of_int mid @ '' - ''
            @ (case md_timestamp md of TsDatetime dt \<Rightarrow> strftime_minutes dt | TsOther s \<Rightarrow> s))"
proof -
  have a: "md_players md = p1 # p2 # rest
      \<and> pm_name p1 = Some n1 \<and> pm_name p2 = Some n2
      \<and> pm_character p1 = Some c1 \<and> pm_character p2 = Some c2
      \<and> n1 \<noteq> [] \<and> n2 \<noteq> [] \<and> title c1 \<noteq> [] \<and> title c2 \<noteq> []
     \<longrightarrow> build_title title mid md
          = n1 @ '' ('' @ title c1 @ '') vs '' @ n2 @ '' ('' @ title c2
            @ '') - Match #'' @ str_of_int mid"
    by (simp add: build_title_def versus_title_def)
  have v: "length ps < 2
      \<or> (\<exists>p \<in> set (take 2 ps).
            pm_name p = None \<or> pm_name p = Some [] \<or> pm_character p = None
            \<or> (\<exists>c. pm_character p = Some c \<and> title c = []))
     \<Longrightarrow> versus_title title mid ps = None" for ps
  proof (cases ps)
    case Nil then show ?thesis by (simp add: versus_title_def)
  next
    case (Cons q1 qs)
    note c1 = this
    assume h: "length ps < 2
      \<or> (\<exists>p \<in> set (take 2 ps).
            pm_name p = None \<or> pm_name p = Some [] \<or> pm_character p = None
            \<or> (\<exists>c. pm_character p = Some c \<and> title c = []))"
    show ?thesis
    proof (cases qs)
      case Nil with c1 show ?thesis by (simp add: versus_title_def)
    next
      case (Cons q2 qr)
      with c1 h show ?thesis
        by (auto simp: versus_title_def Let_def split: option.splits)
    qed
  qed
  have b: "length (md_players md) < 2
      \<or> (\<exists>p \<in> set (take 2 (md_players md)).
            pm_name p = None \<or> pm_name p = Some [] \<or> pm_character p = None
            \<or> (\<exists>c. pm_character p = Some c \<and> title c = []))
     \<longrightarrow> build_title title mid md
          = ''Match #'' @ str_of_int mid @ '' - ''
            @ (case md_timestamp md of TsDatetime dt \<Rightarrow> strftime_minutes dt | TsOther s \<Rightarrow> s)"
    using v[of "md_players md"] by (auto simp: build_title_def fallback_title_def)
  show ?thesis by (rule conjI[OF a b])
qed

lemmas eval_strings = str_of_int_def str_of_nat.simps digit_char_def ascii_title_def to_upper_def
  to_lower_def ascii_lowercase_def ascii_uppercase_def zfill_def strftime_minutes_def

text \<open>
  A match with three participants does not get the fallback title: the test is
  \<open>len(players) >= 2\<close> and the first two players are used.
\<close>

theorem build_title_three_players_counterexample:
  "build_title ascii_title 7
      \<lparr>md_players = [example_player ''habeas'' ''MARIO'' True, example_player ''kento'' ''luigi'' False,
                     example_player ''subby'' ''zelda'' False],
       md_timestamp = TsDatetime example_datetime\<rparr>
    = ''habeas (Mario) vs kento (Luigi) - Match #7''"
  by (simp add: build_title_def versus_title_def example_player_def eval_strings)

theorem build_title_first_two_players_witness:
  "build_title ascii_title 42
      \<lparr>md_players = [example_player ''habeas'' ''MARIO'' True, example_player ''kento'' ''donkey kong'' False],
       md_timestamp = TsDatetime example_datetime\<rparr>
    = ''habeas (Mario) vs kento (Donkey Kong) - Match #42''
   \<and> build_title ascii_title 42
      \<lparr>md_players = [example_player ''Unknown'' ''Unknown'' False],
       md_timestamp = TsDatetime example_datetime\<rparr>
    = ''Match #42 - 2024-01-15 14:30''
   \<and> build_title ascii_title 42
      \<lparr>md_players = [example_player ''habeas'' ''MARIO'' True, example_player [] ''luigi'' False],
       md_timestamp = TsDatetime example_datetime\<rparr>
    = ''Match #42 - 2024-01-15 14:30''"
proof -
  let ?a = "example_player ''habeas'' ''MARIO'' True"
  let ?b = "example_player ''kento'' ''donkey kong'' False"
  let ?u = "example_player ''Unknown'' ''Unknown'' False"
  let ?e = "example_player [] ''luigi'' False"
  let ?ts = "TsDatetime example_datetime"
  have 1: "build_title ascii_title 42 \<lparr>md_players = [?a, ?b], md_timestamp = ?ts\<rparr>
            = ''habeas (Mario) vs kento (Donkey Kong) - Match #42''"
    using build_title_first_two_players[of "\<lparr>md_players = [?a, ?b], md_timestamp = ?ts\<rparr>"
        ?a ?b "[]" "''habeas''" "''kento''" "''MARIO''" "''donkey kong''" ascii_title 42]
    by (simp add: example_player_def eval_strings)
  have 2: "build_title ascii_title 42 \<lparr>md_players = [?u], md_timestamp = ?ts\<rparr>
            = ''Match #42 - 2024-01-15 14:30''"
    using build_title_first_two_players[of "\<lparr>md_players = [?u], md_timestamp = ?ts\<rparr>"
        ?a ?b "[]" "''habeas''" "''kento''" "''MARIO''" "''donkey kong''" ascii_title 42]
    by (simp add: example_player_def example_datetime_def eval_strings)
  have 3: "build_title ascii_title 42 \<lparr>md_players = [?a, ?e], md_timestamp = ?ts\<rparr>
            = ''Match #42 - 2024-01-15 14:30''"
    using build_title_first_two_players[of "\<lparr>md_players = [?a, ?e], md_timestamp = ?ts\<rparr>"
        ?a ?b "[]" "''habeas''" "''kento''" "''MARIO''" "''donkey kong''" ascii_title 42]
    by (simp add: example_player_def example_datetime_def eval_strings)
  show ?thesis using 1 2 3 by simp
qed

section \<open>The retry loop\<close>

lemma loop_transient_retry:
  assumes "transient (ch n)" "retry < 3"
  shows "resumable_loop ch rn retry error n sleeps
         = resumable_loop ch rn (retry + 1) True (n + 1)
             (sleeps @ [rn (length sleeps) * 2 ^ (retry + 1)])"
  using assms
  by (subst resumable_loop.simps)
     (auto simp: transient_def max_retries_def split: chunk_outcome.splits)

lemma loop_transient_exhausted:
  assumes "transient (ch n)"
  shows "resumable_loop ch rn 3 error n sleeps = Some (Returned None, n + 1, sleeps)"
  using assms
  by (subst resumable_loop.simps)
     (auto simp: transient_def max_retries_def split: chunk_outcome.splits)

lemma loop_response:
  assumes "ch n = Response r" "retry \<le> 3"
  shows "resumable_loop ch rn retry error n sleeps = Some (Returned r, n + 1, sleeps)"
  using assms by (subst resumable_loop.simps) (simp add: max_retries_def)

lemma loop_fatal:
  assumes "ch n = RaisesHttpError s" "\<not> retriable_status s" "retry \<le> 3"
  shows "resumable_loop ch rn retry error n sleeps = Some (Raised (HttpError s), n + 1, sleeps)"
  using assms by (subst resumable_loop.simps) (simp add: max_retries_def)

lemma loop_transient_run:
  assumes "\<forall>i<k. transient (ch (n + i))" "retry + k \<le> 3"
  shows "resumable_loop ch rn retry error n sleeps
         = resumable_loop ch rn (retry + k) (error \<or> 0 < k) (n + k)
             (sleeps @ map (\<lambda>i. rn (length sleeps + i) * 2 ^ (retry + i + 1)) [0..<k])"
  using assms
proof (induction k arbitrary: retry error n sleeps)
  case 0 show ?case by simp
next
  case (Suc k)
  have t: "transient (ch n)" using Suc.prems(1) by force
  have r: "retry < 3" using Suc.prems(2) by simp
  have step: "resumable_loop ch rn retry error n sleeps
         = resumable_loop ch rn (retry + 1) True (n + 1)
             (sleeps @ [rn (length sleeps) * 2 ^ (retry + 1)])"
    using t r by (rule loop_transient_retry)
  have p: "\<forall>i<k. transient (ch (n + 1 + i))" using Suc.prems(1) by force
  have q: "retry + 1 + k \<le> 3" using Suc.prems(2) by simp
  have m: "map (\<lambda>i. rn (length sleeps + i) * 2 ^ (retry + i + 1)) [0..<Suc k]
        = (rn (length sleeps) * 2 ^ (retry + 1))
          # map (\<lambda>i. rn (length sleeps + 1 + i) * 2 ^ (retry + 1 + i + 1)) [0..<k]"
    by (simp add: upt_rec[of 0 "Suc k"] map_Suc_upt[symmetric] del: upt_Suc)
  show ?case
    unfolding step Suc.IH[OF p q] m by simp
qed

lemma upload_video_failed_transfer:
  assumes "file_exists env" "fst (check_quota_available (today env) u)"
    "youtube_ready u \<or> auth_ok env" "\<not> metadata_raises md" "\<not> request_raises env"
    "resumable_upload (chunk env) (rnd env) = Some (res, n, sl)"
    "res = Raised e \<or> res = Returned None"
  shows "upload_video env u fp mid md pl
         = Some \<lparr>video_url = None,
                 uploader_after = (snd (check_quota_available (today env) u))\<lparr>youtube_ready := True\<rparr>,
                 chunk_calls = n, sleeps_taken = sl\<rparr>"
proof -
  have r: "youtube_ready (snd (check_quota_available (today env) u)) = youtube_ready u"
    by (simp add: check_quota_available_def Let_def)
  show ?thesis using assms r
    by (auto simp: upload_video_def Let_def)
qed

text \<open>
  Claim C4, as the code has it. The retry bound is 3. An \<open>HttpError\<close> whose status is one of
  500, 502, 503, 504, and any exception that is not an \<open>HttpError\<close>, is retried; an
  \<open>HttpError\<close> with any other status (4xx, and also the other 5xx) leaves the loop at
  once, with no further attempt and no sleep, and \<open>upload_video\<close> returns no URL. The
  \<open>i\<close>-th retry sleeps \<open>random() * 2 ^ i\<close> seconds. At most three transient failures
  followed by a response give one attempt more than there were failures and return the
  response; four transient failures in a row give up after the fourth attempt, that is
  after three retries, and \<open>upload_video\<close> returns no URL.
\<close>

theorem retry_policy:
  "max_retries = 3
   \<and> (retriable_status s \<longleftrightarrow> s = 500 \<or> s = 502 \<or> s = 503 \<or> s = 504)
   \<and> (ch n = RaisesHttpError s \<and> \<not> retriable_status s \<and> retry \<le> 3
      \<longrightarrow> resumable_loop ch rn retry error n sleeps
          = Some (Raised (HttpError s), n + 1, sleeps))
   \<and> ((\<forall>i<k. transient (ch i)) \<and> k \<le> 3 \<and> ch k = Response r
      \<longrightarrow> resumable_upload ch rn
          = Some (Returned r, k + 1, map (\<lambda>i. rn i * 2 ^ (i + 1)) [0..<k]))
   \<and> ((\<forall>i<4. transient (ch i))
      \<longrightarrow> resumable_upload ch rn
          = Some (Returned None, 4, [rn 0 * 2 ^ 1, rn 1 * 2 ^ 2, rn 2 * 2 ^ 3]))
   \<and> (file_exists env \<and> fst (check_quota_available (today env) u)
        \<and> (youtube_ready u \<or> auth_ok env) \<and> \<not> metadata_raises md \<and> \<not> request_raises env
        \<and> resumable_upload (chunk env) (rnd env) = Some (res, m, sl)
        \<and> (res = Raised e \<or> res = Returned None)
      \<longrightarrow> upload_video env u fp mid md pl
          = Some \<lparr>video_url = None,
                  uploader_after = (snd (check_quota_available (today env) u))\<lparr>youtube_ready := True\<rparr>,
                  chunk_calls = m, sleeps_taken = sl\<rparr>)"
proof -
  have a: "max_retries = 3" by (simp add: max_retries_def)
  have b: "retriable_status s \<longleftrightarrow> s = 500 \<or> s = 502 \<or> s = 503 \<or> s = 504"
    by (auto simp: retriable_status_def)
  have c: "ch n = RaisesHttpError s \<and> \<not> retriable_status s \<and> retry \<le> 3
      \<longrightarrow> resumable_loop ch rn retry error n sleeps
          = Some (Raised (HttpError s), n + 1, sleeps)"
    using loop_fatal[of ch n s retry rn error sleeps] by blast
  have d: "(\<forall>i<k. transient (ch i)) \<and> k \<le> 3 \<and> ch k = Response r
      \<longrightarrow> resumable_upload ch rn
          = Some (Returned r, k + 1, map (\<lambda>i. rn i * 2 ^ (i + 1)) [0..<k])"
  proof
    assume h: "(\<forall>i<k. transient (ch i)) \<and> k \<le> 3 \<and> ch k = Response r"
    then have "resumable_upload ch rn
        = resumable_loop ch rn k (0 < k) k (map (\<lambda>i. rn i * 2 ^ (i + 1)) [0..<k])"
      using loop_transient_run[of k ch 0 0 rn False "[]"] by (simp add: resumable_upload_def)
    also have "\<dots> = Some (Returned r, k + 1, map (\<lambda>i. rn i * 2 ^ (i + 1)) [0..<k])"
      using h by (intro loop_response) simp_all
    finally show "resumable_upload ch rn
          = Some (Returned r, k + 1, map (\<lambda>i. rn i * 2 ^ (i + 1)) [0..<k])" .
  qed
  have e: "(\<forall>i<4. transient (ch i))
      \<longrightarrow> resumable_upload ch rn
          = Some (Returned None, 4, [rn 0 * 2 ^ 1, rn 1 * 2 ^ 2, rn 2 * 2 ^ 3])"
  proof
    assume h: "\<forall>i<4. transient (ch i)"
    then have "resumable_upload ch rn
        = resumable_loop ch rn 3 True 3 (map (\<lambda>i. rn i * 2 ^ (i + 1)) [0..<3])"
      using loop_transient_run[of 3 ch 0 0 rn False "[]"] by (simp add: resumable_upload_def)
    also have "\<dots> = Some (Returned None, 3 + 1, map (\<lambda>i. rn i * 2 ^ (i + 1)) [0..<3])"
      using h by (intro loop_transient_exhausted) simp
    also have "map (\<lambda>i. rn i * 2 ^ (i + 1)) [0..<3] = [rn 0 * 2 ^ 1, rn 1 * 2 ^ 2, rn 2 * 2 ^ 3]"
      by (simp add: upt_rec numeral_eq_Suc)
    finally show "resumable_upload ch rn
          = Some (Returned None, 4, [rn 0 * 2 ^ 1, rn 1 * 2 ^ 2, rn 2 * 2 ^ 3])" by simp
  qed
  have f: "file_exists env \<and> fst (check_quota_available (today env) u)
        \<and> (youtube_ready u \<or> auth_ok env) \<and> \<not> metadata_raises md \<and> \<not> request_raises env
        \<and> resumable_upload (chunk env) (rnd env) = Some (res, m, sl)
        \<and> (res = Raised e \<or> res = Returned None)
      \<longrightarrow> upload_video env u fp mid md pl
          = Some \<lparr>video_url = None,
                  uploader_after = (snd (check_quota_available (today env) u))\<lparr>youtube_ready := True\<rparr>,
                  chunk_calls = m, sleeps_taken = sl\<rparr>"
    using upload_video_failed_transfer[of env u md res m sl e fp mid pl] by blast
  show ?thesis by (rule conjI[OF a conjI[OF b conjI[OF c conjI[OF d conjI[OF e f]]]]])
qed

text \<open>
  Not every 5xx status is retried: status 501 ends the upload at the first attempt, although
  the next attempt would have succeeded.
\<close>

theorem retry_policy_not_every_5xx_counterexample:
  "resumable_upload not_implemented_then_succeeds half = Some (Raised (HttpError 501), 1, [])"
  by (subst resumable_upload_def, subst resumable_loop.simps)
     (simp add: not_implemented_then_succeeds_def max_retries_def retriable_status_def)

theorem retry_policy_witness:
  "resumable_upload (fails_then_succeeds 2) half = Some (Returned (Some ''abc123''), 3, [1, 2])
   \<and> resumable_upload always_fails half = Some (Returned None, 4, [1, 2, 4])
   \<and> resumable_loop not_implemented_then_succeeds half 0 False 0 []
       = Some (Raised (HttpError 501), 1, [])
   \<and> upload_video (example_upload_env 19737 always_fails) (example_uploader 0) ''m.mp4'' 7
        example_metadata None
       = Some \<lparr>video_url = None, uploader_after = example_uploader 0, chunk_calls = 4,
               sleeps_taken = [1, 2, 4]\<rparr>"
proof -
  have t2: "\<forall>i<2. transient (fails_then_succeeds 2 i)"
    by (simp add: fails_then_succeeds_def transient_def retriable_status_def)
  have 1: "resumable_upload (fails_then_succeeds 2) half
            = Some (Returned (Some ''abc123''), 3, [1, 2])"
    using retry_policy[where ch = "fails_then_succeeds 2" and k = 2 and r = "Some ''abc123''"
        and rn = half] t2
    by (simp add: fails_then_succeeds_def half_def upt_rec numeral_eq_Suc)
  have t4: "\<forall>i<4. transient (always_fails i)"
    by (simp add: always_fails_def transient_def)
  have 2: "resumable_upload always_fails half = Some (Returned None, 4, [1, 2, 4])"
    using retry_policy[where ch = always_fails and rn = half] t4
    by (simp add: half_def)
  have 3: "resumable_loop not_implemented_then_succeeds half 0 False 0 []
       = Some (Raised (HttpError 501), 1, [])"
    using retry_policy[where ch = not_implemented_then_succeeds and n = 0 and s = 501
        and retry = 0 and rn = half and error = False and sleeps = "[]"]
    by (simp add: not_implemented_then_succeeds_def)
  have q: "check_quota_available 19737 (example_uploader 0) = (True, example_uploader 0)"
    by (simp add: check_quota_available_def example_uploader_def)
  have m: "\<not> metadata_raises example_metadata"
    by (simp add: metadata_raises_def example_metadata_def example_player_def)
  have 4: "upload_video (example_upload_env 19737 always_fails) (example_uploader 0) ''m.mp4'' 7
        example_metadata None
       = Some \<lparr>video_url = None, uploader_after = example_uploader 0, chunk_calls = 4,
               sleeps_taken = [1, 2, 4]\<rparr>"
    using retry_policy[where env = "example_upload_env 19737 always_fails"
        and u = "example_uploader 0" and md = example_metadata and res = "Returned None"
        and m = 4 and sl = "[1, 2, 4]" and fp = "''m.mp4''" and mid = 7 and pl = None] 2 q m
    by (simp add: example_upload_env_def example_uploader_def)
  show ?thesis using 1 2 3 4 by simp
qed

section \<open>The daily upload counter\<close>

lemma check_quota_same_day:
  "day = last_reset_date u \<Longrightarrow>
   check_quota_available day u = (daily_upload_count u < 5, u)"
  by (auto simp: check_quota_available_def)

lemma check_quota_new_day:
  "day \<noteq> last_reset_date u \<Longrightarrow>
   check_quota_available day u
     = (True, u\<lparr>daily_upload_count := 0, last_reset_date := day\<rparr>)"
  by (simp add: check_quota_available_def)

lemma check_quota_result:
  "fst (check_quota_available t u) = (daily_upload_count (snd (check_quota_available t u)) < 5)"
  by (auto simp: check_quota_available_def Let_def)

lemma check_quota_ready:
  "youtube_ready (snd (check_quota_available t u)) = youtube_ready u"
  by (simp add: check_quota_available_def Let_def)

lemma add_to_playlist_count:
  "add_to_playlist env u pl = Inr u' \<Longrightarrow> daily_upload_count u' = daily_upload_count u"
  by (auto simp: add_to_playlist_def split: if_splits sum.splits)

text \<open>
  Claim C7. Once five uploads have been counted on the current local date, \<open>upload_video\<close>
  returns no URL without a single call of \<open>next_chunk\<close> and leaves the uploader as it was;
  in general a call that reaches the transfer had a count below five. The counter is
  incremented by one whenever the transfer returns a video identifier, in particular
  whenever a URL is returned. At the first check on a date other than the recorded one the
  counter is set to 0 and the date recorded; on the same date the counter is left alone.
\<close>

theorem daily_quota_gate:
  "(5 \<le> daily_upload_count u \<and> last_reset_date u = today env \<and> file_exists env
      \<longrightarrow> upload_video env u fp mid md pl
          = Some \<lparr>video_url = None, uploader_after = u, chunk_calls = 0, sleeps_taken = []\<rparr>)
   \<and> (upload_video env u fp mid md pl = Some rep \<and> 0 < chunk_calls rep
      \<longrightarrow> daily_upload_count (snd (check_quota_available (today env) u)) < 5)
   \<and> (upload_video env u fp mid md pl = Some rep \<and> video_url rep \<noteq> None
      \<longrightarrow> daily_upload_count (uploader_after rep)
          = daily_upload_count (snd (check_quota_available (today env) u)) + 1)
   \<and> (file_exists env \<and> fst (check_quota_available (today env) u)
        \<and> (youtube_ready u \<or> auth_ok env) \<and> \<not> metadata_raises md \<and> \<not> request_raises env
        \<and> resumable_upload (chunk env) (rnd env) = Some (Returned (Some vid), m, sl)
        \<and> upload_video env u fp mid md pl = Some rep
      \<longrightarrow> daily_upload_count (uploader_after rep)
          = daily_upload_count (snd (check_quota_available (today env) u)) + 1)
   \<and> (today env \<noteq> last_reset_date u
      \<longrightarrow> check_quota_available (today env) u
          = (True, u\<lparr>daily_upload_count := 0, last_reset_date := today env\<rparr>))
   \<and> (today env = last_reset_date u
      \<longrightarrow> check_quota_available (today env) u = (daily_upload_count u < 5, u))"
proof -
  let ?q = "check_quota_available (today env) u"
  have a: "5 \<le> daily_upload_count u \<and> last_reset_date u = today env \<and> file_exists env
      \<longrightarrow> upload_video env u fp mid md pl
          = Some \<lparr>video_url = None, uploader_after = u, chunk_calls = 0, sleeps_taken = []\<rparr>"
    by (auto simp: upload_video_def check_quota_available_def)
  have b: "upload_video env u fp mid md pl = Some rep \<and> 0 < chunk_calls rep
      \<longrightarrow> daily_upload_count (snd ?q) < 5"
    using check_quota_result[of "today env" u]
    by (auto simp: upload_video_def Let_def split: if_splits)
  have c: "upload_video env u fp mid md pl = Some rep \<and> video_url rep \<noteq> None
      \<longrightarrow> daily_upload_count (uploader_after rep) = daily_upload_count (snd ?q) + 1"
    by (auto simp: upload_video_def Let_def add_to_playlist_count
        split: if_splits option.splits upload_result.splits sum.splits prod.splits)
  have d: "file_exists env \<and> fst ?q
        \<and> (youtube_ready u \<or> auth_ok env) \<and> \<not> metadata_raises md \<and> \<not> request_raises env
        \<and> resumable_upload (chunk env) (rnd env) = Some (Returned (Some vid), m, sl)
        \<and> upload_video env u fp mid md pl = Some rep
      \<longrightarrow> daily_upload_count (uploader_after rep) = daily_upload_count (snd ?q) + 1"
    by (auto simp: upload_video_def Let_def add_to_playlist_count check_quota_ready
        split: if_splits option.splits upload_result.splits sum.splits prod.splits)
  have e: "today env \<noteq> last_reset_date u
      \<longrightarrow> ?q = (True, u\<lparr>daily_upload_count := 0, last_reset_date := today env\<rparr>)"
    using check_quota_new_day[of "today env" u] by blast
  have f: "today env = last_reset_date u \<longrightarrow> ?q = (daily_upload_count u < 5, u)"
    using check_quota_same_day[of "today env" u] by blast
  show ?thesis by (rule conjI[OF a conjI[OF b conjI[OF c conjI[OF d conjI[OF e f]]]]])
qed


lemma example_success:
  "upload_video (example_upload_env 19737 (fails_then_succeeds 0)) (example_uploader 4) ''m.mp4'' 7
        example_metadata (Some ''Smash Bros Matches'')
     = Some \<lparr>video_url = Some ''https://www.youtube.com/watch?v=abc123'',
             uploader_after = example_uploader 5, chunk_calls = 1, sleeps_taken = []\<rparr>"
proof -
  have "resumable_upload (fails_then_succeeds 0) half = Some (Returned (Some ''abc123''), 1, [])"
    using loop_response[of "fails_then_succeeds 0" 0 "Some ''abc123''" 0 half False "[]"]
    by (simp add: resumable_upload_def fails_then_succeeds_def)
  then show ?thesis
    by (simp add: upload_video_def example_upload_env_def example_uploader_def
        check_quota_available_def metadata_raises_def example_metadata_def example_player_def
        add_to_playlist_def truthy_def)
qed

theorem daily_quota_gate_witness:
  "upload_video (example_upload_env 19737 (fails_then_succeeds 0)) (example_uploader 5) ''m.mp4'' 7
        example_metadata (Some ''Smash Bros Matches'')
     = Some \<lparr>video_url = None, uploader_after = example_uploader 5, chunk_calls = 0,
             sleeps_taken = []\<rparr>
   \<and> check_quota_available 19738 (example_uploader 5)
     = (True, (example_uploader 5)\<lparr>daily_upload_count := 0, last_reset_date := 19738\<rparr>)
   \<and> daily_upload_count (uploader_after (the
        (upload_video (example_upload_env 19737 (fails_then_succeeds 0)) (example_uploader 4)
           ''m.mp4'' 7 example_metadata (Some ''Smash Bros Matches'')))) = 5"
proof -
  let ?env = "example_upload_env 19737 (fails_then_succeeds 0)"
  let ?pl = "Some ''Smash Bros Matches''"
  have 1: "upload_video ?env (example_uploader 5) ''m.mp4'' 7 example_metadata ?pl
     = Some \<lparr>video_url = None, uploader_after = example_uploader 5, chunk_calls = 0,
             sleeps_taken = []\<rparr>"
    using daily_quota_gate[where env = ?env and u = "example_uploader 5" and fp = "''m.mp4''"
        and mid = 7 and md = example_metadata and pl = ?pl]
    by (simp add: example_upload_env_def example_uploader_def)
  have 2: "check_quota_available 19738 (example_uploader 5)
     = (True, (example_uploader 5)\<lparr>daily_upload_count := 0, last_reset_date := 19738\<rparr>)"
    using daily_quota_gate[where env = "example_upload_env 19738 (fails_then_succeeds 0)"
        and u = "example_uploader 5"]
    by (simp add: example_upload_env_def example_uploader_def)
  have 3: "daily_upload_count (uploader_after (the
        (upload_video ?env (example_uploader 4) ''m.mp4'' 7 example_metadata ?pl))) = 5"
    using daily_quota_gate[where env = ?env and u = "example_uploader 4" and fp = "''m.mp4''"
        and mid = 7 and md = example_metadata and pl = ?pl
        and rep = "\<lparr>video_url = Some ''https://www.youtube.com/watch?v=abc123'',
             uploader_after = example_uploader 5, chunk_calls = 1, sleeps_taken = []\<rparr>"]
      example_success
    by (simp add: example_uploader_def)
  show ?thesis using 1 2 3 by simp
qed

section \<open>Parsing a file name and finding its match\<close>

lemmas eval_parse = parse_filename_def re_match_id_timestamp_def re_match_timestamp_def
  full_match_id_timestamp_def is_timestamp_str_def is_digit_def chomp_def strptime_def
  nat_of_digits_def digit_value_def days_in_month_def is_leap_def Let_def

lemma parse_documented_examples:
  "parse_filename ''42-20240115_143052.mp4''
     = Inr (Some \<lparr>parsed_match_id = Some 42, parsed_timestamp = example_datetime\<rparr>)
   \<and> parse_filename ''20240115_143052.mp4''
     = Inr (Some \<lparr>parsed_match_id = None, parsed_timestamp = example_datetime\<rparr>)
   \<and> parse_filename ''notaname.mp4'' = Inr None"
  by (simp add: eval_parse example_datetime_def)

lemma unparseable_file_skipped:
  "parse_filename (basename fp) = Inr None \<Longrightarrow>
   bulk_process_video env dry st fp skip pl
     = Some (Inr False, st\<lparr>bs_stats := (bs_stats st)\<lparr>skipped := skipped (bs_stats st) + 1\<rparr>\<rparr>)"
  by (simp add: bulk_process_video_def)

text \<open>
  Claim C6. The three documented file names parse as the claim says
  (\<open>parse_documented_examples\<close>), and a file whose name parses to nothing is skipped
  (\<open>unparseable_file_skipped\<close>). But \<open>replace('.mp4', '')\<close> removes the text \<open>.mp4\<close>
  wherever it stands, not only the extension: the two file names below match neither
  \<open>{matchId}-{YYYYMMDD}_{HHMMSS}.<ext>\<close> nor \<open>{YYYYMMDD}_{HHMMSS}.<ext>\<close>, and the
  function parses them.
\<close>

theorem parse_filename_inner_extension:
  "parse_filename ''20240115_1430.mp452.mp4''
     = Inr (Some \<lparr>parsed_match_id = None, parsed_timestamp = example_datetime\<rparr>)
   \<and> parse_filename ''4.mp42-20240115_143052.mp4''
     = Inr (Some \<lparr>parsed_match_id = Some 42, parsed_timestamp = example_datetime\<rparr>)"
  by (simp add: eval_parse example_datetime_def)

lemma utc_micros_example: "utc_micros example_datetime = 1705329052000000"
  by (simp add: utc_micros_def utc_seconds_def example_datetime_def days_before_year_def
      days_before_month_def days_in_month_def is_leap_def)

lemma min_by_first_minimum:
  "\<exists>pre post. b # xs = pre @ min_by key b xs # post
     \<and> (\<forall>y\<in>set pre. key (min_by key b xs) < key y)
     \<and> (\<forall>y\<in>set post. key (min_by key b xs) \<le> key y)"
proof (induction xs arbitrary: b)
  case Nil
  show ?case by (intro exI[of _ "[]"]) simp
next
  case (Cons x xs)
  show ?case
  proof (cases "key x < key b")
    case True
    define r where "r = min_by key x xs"
    have res: "min_by key b (x # xs) = r" using True by (simp add: r_def)
    from Cons[of x] obtain pre post where
      s: "x # xs = pre @ r # post" and
      p: "\<forall>y\<in>set pre. key r < key y" and
      q: "\<forall>y\<in>set post. key r \<le> key y" unfolding r_def by blast
    have "x \<in> set (pre @ r # post)" using s by (metis list.set_intros(1))
    then have le: "key r \<le> key x" using p q by auto
    have "b # x # xs = (b # pre) @ r # post" using s by simp
    moreover have "\<forall>y\<in>set (b # pre). key r < key y" using p le True by auto
    ultimately show ?thesis unfolding res using q by blast
  next
    case False
    define r where "r = min_by key b xs"
    have res: "min_by key b (x # xs) = r" using False by (simp add: r_def)
    from Cons[of b] obtain pre post where
      s: "b # xs = pre @ r # post" and
      p: "\<forall>y\<in>set pre. key r < key y" and
      q: "\<forall>y\<in>set post. key r \<le> key y" unfolding r_def by blast
    show ?thesis
    proof (cases pre)
      case Nil
      have rb: "r = b" and px: "xs = post" using s Nil by simp_all
      have "b # x # xs = [] @ r # (x # post)" using rb px by simp
      moreover have "\<forall>y\<in>set (x # post). key r \<le> key y" using q False rb by auto
      moreover have "\<forall>y\<in>set ([]::'a list). key r < key y" by simp
      ultimately show ?thesis unfolding res by blast
    next
      case (Cons c pre')
      have cb: "c = b" and xs: "xs = pre' @ r # post" using s Cons by simp_all
      have "b # x # xs = (b # x # pre') @ r # post" using xs by simp
      moreover have "key r < key b" using p Cons cb by simp
      then have "\<forall>y\<in>set (b # x # pre'). key r < key y" using p Cons False by auto
      ultimately show ?thesis unfolding res using q by blast
    qed
  qed
qed

text \<open>
  Claim C5, as the code has it. When the query returns rows, the record found is one with
  the smallest absolute time difference to the probe, and among the rows of that smallest
  difference it is the one that comes first in the order in which the store returned them:
  every row before it is strictly farther away and no row after it is nearer. There is no
  rule by identifier. When the query raises or returns nothing, no record is found.
\<close>

theorem closest_match_first_in_store_order:
  "(\<not> find_raises env
      \<and> matches_between d (utc_micros ts - tol * 1000000) (utc_micros ts + tol * 1000000) \<noteq> []
     \<longrightarrow> (\<exists>r pre post.
           find_match_by_timestamp env d ts tol = Some r
           \<and> matches_between d (utc_micros ts - tol * 1000000) (utc_micros ts + tol * 1000000)
               = pre @ r # post
           \<and> (\<forall>m\<in>set pre. time_delta (utc_micros ts) r < time_delta (utc_micros ts) m)
           \<and> (\<forall>m\<in>set post. time_delta (utc_micros ts) r \<le> time_delta (utc_micros ts) m)))
   \<and> (find_raises env
        \<or> matches_between d (utc_micros ts - tol * 1000000) (utc_micros ts + tol * 1000000) = []
     \<longrightarrow> find_match_by_timestamp env d ts tol = None)"
proof -
  let ?t = "utc_micros ts"
  let ?ms = "matches_between d (?t - tol * 1000000) (?t + tol * 1000000)"
  have a: "\<not> find_raises env \<and> ?ms \<noteq> []
     \<longrightarrow> (\<exists>r pre post.
           find_match_by_timestamp env d ts tol = Some r \<and> ?ms = pre @ r # post
           \<and> (\<forall>m\<in>set pre. time_delta ?t r < time_delta ?t m)
           \<and> (\<forall>m\<in>set post. time_delta ?t r \<le> time_delta ?t m))"
  proof
    assume h: "\<not> find_raises env \<and> ?ms \<noteq> []"
    then obtain m rest where ms: "?ms = m # rest" by (cases ?ms) auto
    have f: "find_match_by_timestamp env d ts tol = Some (min_by (time_delta ?t) m rest)"
      using h ms by (cases rest) (simp_all add: find_match_by_timestamp_def Let_def)
    from min_by_first_minimum[of m rest "time_delta ?t"] obtain pre post where
      "m # rest = pre @ min_by (time_delta ?t) m rest # post"
      "\<forall>y\<in>set pre. time_delta ?t (min_by (time_delta ?t) m rest) < time_delta ?t y"
      "\<forall>y\<in>set post. time_delta ?t (min_by (time_delta ?t) m rest) \<le> time_delta ?t y"
      by blast
    then show "\<exists>r pre post.
           find_match_by_timestamp env d ts tol = Some r \<and> ?ms = pre @ r # post
           \<and> (\<forall>m\<in>set pre. time_delta ?t r < time_delta ?t m)
           \<and> (\<forall>m\<in>set post. time_delta ?t r \<le> time_delta ?t m)"
      using f ms by metis
  qed
  have b: "find_raises env \<or> ?ms = [] \<longrightarrow> find_match_by_timestamp env d ts tol = None"
    by (auto simp: find_match_by_timestamp_def Let_def)
  show ?thesis by (rule conjI[OF a b])
qed

lemma find_after_before:
  "find_match_by_timestamp example_bulk_env (db_of_matches [row_after, row_before]) example_datetime 5
     = Some row_after"
  by (simp add: find_match_by_timestamp_def example_bulk_env_def db_of_matches_def
      matches_between_def utc_micros_example row_after_def row_before_def time_delta_def)

lemma find_before_after:
  "find_match_by_timestamp example_bulk_env (db_of_matches [row_before, row_after]) example_datetime 5
     = Some row_before"
  by (simp add: find_match_by_timestamp_def example_bulk_env_def db_of_matches_def
      matches_between_def utc_micros_example row_after_def row_before_def time_delta_def)

text \<open>
  Two records equidistant from the probe: the answer follows the order of the rows, and
  with the rows in one order it is the record with the higher identifier.
\<close>

theorem closest_match_tie_counterexample:
  "find_match_by_timestamp example_bulk_env (db_of_matches [row_after, row_before]) example_datetime 5
     = Some row_after
   \<and> find_match_by_timestamp example_bulk_env (db_of_matches [row_before, row_after]) example_datetime 5
     = Some row_before
   \<and> time_delta (utc_micros example_datetime) row_before
     = time_delta (utc_micros example_datetime) row_after
   \<and> match_id row_before < match_id row_after"
proof -
  have c: "time_delta (utc_micros example_datetime) row_before
     = time_delta (utc_micros example_datetime) row_after"
    by (simp add: utc_micros_example time_delta_def row_after_def row_before_def)
  have d: "match_id row_before < match_id row_after"
    by (simp add: row_after_def row_before_def)
  show ?thesis using find_after_before find_before_after c d by blast
qed


theorem closest_match_first_in_store_order_witness:
  "\<exists>r pre post.
     find_match_by_timestamp example_bulk_env (db_of_matches [row_after, row_before])
        example_datetime 5 = Some r
     \<and> matches_between (db_of_matches [row_after, row_before])
          (utc_micros example_datetime - 5 * 1000000) (utc_micros example_datetime + 5 * 1000000)
        = pre @ r # post
     \<and> (\<forall>m\<in>set pre. time_delta (utc_micros example_datetime) r
                        < time_delta (utc_micros example_datetime) m)
     \<and> (\<forall>m\<in>set post. time_delta (utc_micros example_datetime) r
                        \<le> time_delta (utc_micros example_datetime) m)"
proof -
  have h: "\<not> find_raises example_bulk_env
      \<and> matches_between (db_of_matches [row_after, row_before])
          (utc_micros example_datetime - 5 * 1000000) (utc_micros example_datetime + 5 * 1000000)
        \<noteq> []"
    by (simp add: example_bulk_env_def matches_between_def db_of_matches_def utc_micros_example
        row_after_def row_before_def)
  show ?thesis
    using closest_match_first_in_store_order[of example_bulk_env
        "db_of_matches [row_after, row_before]" example_datetime 5] h
    by blast
qed

section \<open>Skipping what was uploaded\<close>





























end
